theory Spec2Isabelle
  imports Main "HOL-Library.Multiset" "HOL-Library.AList"
begin

section \<open>The plugin hook mechanism of exadmin/views/base.py\<close>

text \<open>
  The module defines a decorator \<^verbatim>\<open>filter_hook\<close> for the methods of an admin view and the
  recursive helper \<^verbatim>\<open>filter_chain\<close> that nests the plugins' implementations of a hook
  around the decorated method, and the pass \<^verbatim>\<open>init_plugin\<close> that selects the plugins of
  a view. The embedding below follows the Python text: a call that may have effects and may
  raise is a function from a state to a result-or-error and the state it leaves behind.
\<close>

subsection \<open>Python values, exceptions and calls\<close>

text \<open>
  \<^verbatim>\<open>IncorrectPluginArg\<close> is the exception class of the module (lines 32-33). The other
  constructors are the built-in exceptions the modelled lines can raise, and \<^verbatim>\<open>Raised\<close>
  stands for any exception raised by the code of a plugin or of a decorated method.
\<close>

datatype error = IncorrectPluginArg | IndexError | TypeError | RuntimeError | Raised string

text \<open>
  Python values. A function object is a value like any other (\<^verbatim>\<open>PFunc\<close>): the chain hands
  the zero-argument closure \<^verbatim>\<open>func\<close> to a plugin as an argument. \<^verbatim>\<open>PObj\<close> is an opaque
  object known by a name. The type parameter is the state that calls read and change.
\<close>

datatype 's pyval =
    PNone
  | PBool bool
  | PInt int
  | PStr string
  | PObj string
  | PDict "(string \<times> 's pyval) list"
  | PFunc "'s \<Rightarrow> (error + 's pyval) \<times> 's"

type_synonym ('s, 'a) comp = "'s \<Rightarrow> (error + 'a) \<times> 's"

type_synonym 's pyargs = "'s pyval list"

type_synonym 's pykwargs = "(string \<times> 's pyval) list"

definition py_return :: "'a \<Rightarrow> ('s, 'a) comp" where
  "py_return v = (\<lambda>s. (Inr v, s))"

definition py_raise :: "error \<Rightarrow> ('s, 'a) comp" where
  "py_raise e = (\<lambda>s. (Inl e, s))"

text \<open>Sequencing: an exception of the first call skips the rest and keeps the state it left.\<close>

definition py_bind :: "('s, 'a) comp \<Rightarrow> ('a \<Rightarrow> ('s, 'b) comp) \<Rightarrow> ('s, 'b) comp" where
  "py_bind m f = (\<lambda>s. case m s of (Inl e, s') \<Rightarrow> (Inl e, s') | (Inr v, s') \<Rightarrow> f v s')"

text \<open>\<^verbatim>\<open>x is None\<close> and \<^verbatim>\<open>x is False\<close>: identity with the two singletons.\<close>

fun is_None :: "'s pyval \<Rightarrow> bool" where
  "is_None PNone = True"
| "is_None _ = False"

fun is_False :: "'s pyval \<Rightarrow> bool" where
  "is_False (PBool b) = (\<not> b)"
| "is_False _ = False"

text \<open>\<^verbatim>\<open>xs[i]\<close> on a list: a negative index counts from the end, out of range raises.\<close>

definition list_index :: "'a list \<Rightarrow> int \<Rightarrow> error + 'a" where
  "list_index xs i =
     (if 0 \<le> i \<and> i < int (length xs) then Inr (xs ! nat i)
      else if i < 0 \<and> - int (length xs) \<le> i then Inr (xs ! nat (int (length xs) + i))
      else Inl IndexError)"

text \<open>\<^verbatim>\<open>str.lower()\<close> on the ASCII letters.\<close>

definition char_lower :: "char \<Rightarrow> char" where
  "char_lower c =
     (case map_of (zip ''ABCDEFGHIJKLMNOPQRSTUVWXYZ'' ''abcdefghijklmnopqrstuvwxyz'') c of
        None \<Rightarrow> c
      | Some d \<Rightarrow> d)"

definition lower :: "string \<Rightarrow> string" where
  "lower s = map char_lower s"

subsection \<open>Callables, plugins and views\<close>

text \<open>
  What the module reads of a callable \<^verbatim>\<open>fm\<close>: the attribute \<^verbatim>\<open>priority\<close> (absent for
  most), the list of argument names \<^verbatim>\<open>getargspec(fm)[0]\<close> (\<^verbatim>\<open>getargspec\<close> raises
  \<^verbatim>\<open>TypeError\<close> on a callable that is not a Python function: \<^verbatim>\<open>None\<close> here), and the call
  itself with positional and keyword arguments.
\<close>

record 's pymethod =
  priority :: "int option"
  argspec :: "string list option"
  call :: "'s pyargs \<Rightarrow> 's pykwargs \<Rightarrow> ('s, 's pyval) comp"

datatype 's attr = NonCallable "'s pyval" | Callable "'s pymethod"

record 's http_request =
  req_method :: string
  req_user :: "'s pyval"

text \<open>
  The attributes of a plugin instance: those set by \<^verbatim>\<open>BaseAdminPlugin.__init__\<close>
  (lines 242-248) and those set by \<^verbatim>\<open>init_plugin\<close> (lines 305-308), which are absent before.
\<close>

record 's plugin_fields =
  admin_view :: string
  p_admin_site :: string
  p_model :: "string option"
  p_opts :: "string option"
  p_request :: "'s http_request option"
  p_user :: "'s pyval option"
  p_args :: "'s pyargs option"
  p_kwargs :: "'s pykwargs option"

text \<open>
  A plugin class gives the attributes found on an instance by name (bound to the instance,
  so they see its fields) and the method \<^verbatim>\<open>init_request\<close>.
\<close>

record 's plugin_class =
  class_attrs :: "'s plugin_fields \<Rightarrow> string \<Rightarrow> 's attr option"
  init_request :: "'s plugin_fields \<Rightarrow> 's pyargs \<Rightarrow> 's pykwargs \<Rightarrow> ('s, 's pyval) comp"

record 's plugin =
  cls :: "'s plugin_class"
  p_fields :: "'s plugin_fields"

record 's host =
  ident :: string
  admin_site :: string
  model :: "string option"
  plugin_classes :: "'s plugin_class list option"
  request :: "'s http_request"
  request_method :: string
  user :: "'s pyval"
  base_plugins :: "'s plugin list"
  self_args :: "'s pyargs"
  self_kwargs :: "'s pykwargs"
  plugins :: "'s plugin list"

text \<open>\<^verbatim>\<open>getattr(p, tag, None)\<close>, \<^verbatim>\<open>callable(x)\<close> and \<^verbatim>\<open>getattr(fm, 'priority', 10)\<close>.\<close>

definition getattr :: "'s plugin \<Rightarrow> string \<Rightarrow> 's attr option" where
  "getattr p tag = class_attrs (cls p) (p_fields p) tag"

fun callable :: "'s attr option \<Rightarrow> bool" where
  "callable (Some (Callable fm)) = True"
| "callable _ = False"

definition getattr_priority :: "'s pymethod \<Rightarrow> int" where
  "getattr_priority fm = (case priority fm of None \<Rightarrow> 10 | Some n \<Rightarrow> n)"

definition getargspec :: "'s pymethod \<Rightarrow> error + string list" where
  "getargspec fm = (case argspec fm of None \<Rightarrow> Inl TypeError | Some names \<Rightarrow> Inr names)"

subsection \<open>\<^verbatim>\<open>filter_chain\<close> (lines 35-51)\<close>

text \<open>
  The closure \<^verbatim>\<open>_inner_method\<close> of lines 39-50, with the variables it captures as
  parameters. Nothing of it runs when it is built: it is the call of the closure.
\<close>

definition inner_method ::
  "'s pymethod list \<Rightarrow> int \<Rightarrow> ('s, 's pyval) comp \<Rightarrow> 's pyargs \<Rightarrow> 's pykwargs
     \<Rightarrow> ('s, 's pyval) comp" where
  "inner_method filters token func args kwargs =
     (case list_index filters token of
        Inl e \<Rightarrow> py_raise e
      | Inr fm \<Rightarrow>
          (case getargspec fm of
             Inl e \<Rightarrow> py_raise e
           | Inr fargs \<Rightarrow>
               if length fargs = 1 then
                 py_bind func (\<lambda>result.
                   if is_None result then call fm [] []
                   else py_raise IncorrectPluginArg)
               else
                 (case list_index fargs 1 of
                    Inl e \<Rightarrow> py_raise e
                  | Inr name \<Rightarrow>
                      if name = ''__'' then call fm (PFunc func # args) kwargs
                      else py_bind func (\<lambda>result. call fm (result # args) kwargs))))"

text \<open>
  A call \<^verbatim>\<open>f(a, b, *args, **kwargs)\<close> of a function whose first parameters are named
  \<^verbatim>\<open>params\<close>, all of them given by position, raises \<^verbatim>\<open>TypeError\<close> (got multiple values
  for keyword argument) before the body runs when a key of \<^verbatim>\<open>kwargs\<close> is one of those
  names.
\<close>

definition multiple_values :: "string list \<Rightarrow> 's pykwargs \<Rightarrow> bool" where
  "multiple_values params kwargs = (set params \<inter> fst ` set kwargs \<noteq> {})"

text \<open>
  \<^verbatim>\<open>filter_chain(filters, token, func, *args, **kwargs)\<close>, line 35. Both calls of it, at
  lines 51 and 66, give the three named parameters by position and forward the keyword
  arguments of the hook call, so a keyword named \<^verbatim>\<open>filters\<close>, \<^verbatim>\<open>token\<close> or \<^verbatim>\<open>func\<close> is
  a \<^verbatim>\<open>TypeError\<close> of the call, with nothing run. Below \<^verbatim>\<open>-1\<close> the Python
  recursion never reaches its base case and no closure is ever called: the interpreter
  stops it with a \<^verbatim>\<open>RuntimeError\<close> (maximum recursion depth exceeded). The same limit
  on a list of about a thousand implementations is left out.
\<close>

function filter_chain ::
  "'s pymethod list \<Rightarrow> int \<Rightarrow> ('s, 's pyval) comp \<Rightarrow> 's pyargs \<Rightarrow> 's pykwargs
     \<Rightarrow> ('s, 's pyval) comp" where
  "filter_chain filters token func args kwargs =
     (if multiple_values [''filters'', ''token'', ''func''] kwargs then py_raise TypeError
      else if token = - 1 then func
      else if token < - 1 then py_raise RuntimeError
      else filter_chain filters (token - 1)
             (inner_method filters token func args kwargs) args kwargs)"
  by pat_completeness auto
termination
  by (relation "measure (\<lambda>(filters, token, func, args, kwargs). nat (token + 1))") auto

declare filter_chain.simps [simp del]

subsection \<open>\<^verbatim>\<open>filter_hook\<close> (lines 53-69)\<close>

text \<open>
  Line 63-64: the pairs of priority and bound method of the plugins that have a callable
  attribute of the hook's name, in the order of the plugins.
\<close>

fun hook_pairs :: "string \<Rightarrow> 's plugin list \<Rightarrow> (int \<times> 's pymethod) list" where
  "hook_pairs tag [] = []"
| "hook_pairs tag (p # ps) =
     (case getattr p tag of
        Some (Callable fm) \<Rightarrow> (getattr_priority fm, fm) # hook_pairs tag ps
      | _ \<Rightarrow> hook_pairs tag ps)"

text \<open>Line 65: \<^verbatim>\<open>sorted\<close> is a stable sort on the key, here the priority.\<close>

definition hook_filters :: "string \<Rightarrow> 's plugin list \<Rightarrow> 's pymethod list" where
  "hook_filters tag ps = map snd (sort_key fst (hook_pairs tag ps))"

text \<open>
  The wrapper \<^verbatim>\<open>method(self, *args, **kwargs)\<close> that the decorator returns (line 57), for
  the decorated function \<^verbatim>\<open>func\<close> of name \<^verbatim>\<open>tag\<close>. The receiver is given by position,
  so a keyword named \<^verbatim>\<open>self\<close> is a \<^verbatim>\<open>TypeError\<close> of the call of the wrapper.
\<close>

definition filter_hook ::
  "string \<Rightarrow> ('s host \<Rightarrow> 's pyargs \<Rightarrow> 's pykwargs \<Rightarrow> ('s, 's pyval) comp)
     \<Rightarrow> 's host \<Rightarrow> 's pyargs \<Rightarrow> 's pykwargs \<Rightarrow> ('s, 's pyval) comp" where
  "filter_hook tag func self args kwargs =
     (if multiple_values [''self''] kwargs then py_raise TypeError
      else
        (let inner = func self args kwargs in
         if plugins self \<noteq> [] then
           (let filters = hook_filters tag (plugins self)
            in filter_chain filters (int (length filters) - 1) inner args kwargs)
         else inner))"

subsection \<open>The nesting that \<^verbatim>\<open>filter_chain\<close> builds\<close>

text \<open>
  The continuation of the specification: the rest of the chain from the stage at index
  \<^verbatim>\<open>k\<close> of the sorted list inward. Past the last stage it is the decorated method itself;
  at a stage it is the closure of that stage around the continuation of the next index.
  This definition follows the specification's description, and is compared with
  \<^verbatim>\<open>filter_chain\<close> below.
\<close>

function continuation ::
  "'s pymethod list \<Rightarrow> nat \<Rightarrow> ('s, 's pyval) comp \<Rightarrow> 's pyargs \<Rightarrow> 's pykwargs
     \<Rightarrow> ('s, 's pyval) comp" where
  "continuation filters k func args kwargs =
     (if k < length filters
      then inner_method filters (int k) (continuation filters (Suc k) func args kwargs) args kwargs
      else func)"
  by pat_completeness auto
termination
  by (relation "measure (\<lambda>(filters, k, func, args, kwargs). length filters - k)") auto

declare continuation.simps [simp del]

text \<open>The three calling conventions, read off the argument names of an implementation.\<close>

definition observer_mode :: "'s pymethod \<Rightarrow> bool" where
  "observer_mode fm = (case argspec fm of Some [a] \<Rightarrow> True | _ \<Rightarrow> False)"

definition continuation_mode :: "'s pymethod \<Rightarrow> bool" where
  "continuation_mode fm =
     (case argspec fm of Some (a # b # rest) \<Rightarrow> b = ''__'' | _ \<Rightarrow> False)"

definition result_mode :: "'s pymethod \<Rightarrow> bool" where
  "result_mode fm =
     (case argspec fm of Some (a # b # rest) \<Rightarrow> b \<noteq> ''__'' | _ \<Rightarrow> False)"

subsection \<open>Plugins of a view (lines 238-312)\<close>

text \<open>\<^verbatim>\<open>BaseAdminPlugin.__init__(self, admin_view)\<close>, lines 242-248.\<close>

definition BaseAdminPlugin_init :: "'s plugin_class \<Rightarrow> 's host \<Rightarrow> 's plugin" where
  "BaseAdminPlugin_init c view =
     \<lparr>cls = c,
      p_fields = \<lparr>admin_view = ident view, p_admin_site = admin_site view,
                  p_model = model view,
                  p_opts = (case model view of None \<Rightarrow> None | Some m \<Rightarrow> Some (m @ ''._meta'')),
                  p_request = None, p_user = None, p_args = None, p_kwargs = None\<rparr>\<rparr>"

text \<open>Lines 305-308: the four attributes that \<^verbatim>\<open>init_plugin\<close> sets on a plugin.\<close>

definition set_request_attrs :: "'s host \<Rightarrow> 's plugin \<Rightarrow> 's plugin" where
  "set_request_attrs self p =
     p\<lparr>p_fields := (p_fields p)\<lparr>p_request := Some (request self), p_user := Some (user self),
                                 p_args := Some (self_args self),
                                 p_kwargs := Some (self_kwargs self)\<rparr>\<rparr>"

text \<open>
  The loop of lines 304-311 over the plugins still to visit, with the local list
  \<^verbatim>\<open>plugins\<close> built so far.
\<close>

fun init_plugin_loop ::
  "'s host \<Rightarrow> 's pyargs \<Rightarrow> 's pykwargs \<Rightarrow> 's plugin list \<Rightarrow> 's plugin list
     \<Rightarrow> ('s, 's plugin list) comp" where
  "init_plugin_loop self args kwargs [] active = py_return active"
| "init_plugin_loop self args kwargs (p # ps) active =
     (let p' = set_request_attrs self p in
      py_bind (init_request (cls p') (p_fields p') args kwargs) (\<lambda>result.
        init_plugin_loop self args kwargs ps
          (if \<not> is_False result then active @ [p'] else active)))"

text \<open>
  \<^verbatim>\<open>init_plugin\<close>, lines 302-312. The plugins it changes are the objects of
  \<^verbatim>\<open>self.base_plugins\<close>, so that list shows the new attributes too.
\<close>

definition init_plugin :: "'s host \<Rightarrow> 's pyargs \<Rightarrow> 's pykwargs \<Rightarrow> ('s, 's host) comp" where
  "init_plugin self args kwargs =
     py_bind (init_plugin_loop self args kwargs (base_plugins self) []) (\<lambda>active.
       py_return (self\<lparr>base_plugins := map (set_request_attrs self) (base_plugins self),
                       plugins := active\<rparr>))"

text \<open>\<^verbatim>\<open>BaseAdminView.init_request\<close>, lines 299-300: \<^verbatim>\<open>pass\<close>.\<close>

definition view_init_request :: "'s host \<Rightarrow> 's pyargs \<Rightarrow> 's pykwargs \<Rightarrow> ('s, 's pyval) comp" where
  "view_init_request self args kwargs = py_return PNone"

text \<open>
  \<^verbatim>\<open>BaseAdminView.__init__\<close>, lines 265-275, on the new object \<^verbatim>\<open>self\<close>, which has the
  attributes of its class only.
\<close>

definition BaseAdminView_init ::
  "'s host \<Rightarrow> 's http_request \<Rightarrow> 's pyargs \<Rightarrow> 's pykwargs \<Rightarrow> ('s, 's host) comp" where
  "BaseAdminView_init self req args kwargs =
     (let self = self\<lparr>request := req\<rparr>;
          self = self\<lparr>request_method := lower (req_method req)\<rparr>;
          self = self\<lparr>user := req_user req\<rparr>;
          self = self\<lparr>base_plugins :=
                   map (\<lambda>p. BaseAdminPlugin_init p self)
                     (case plugin_classes self of None \<Rightarrow> [] | Some cs \<Rightarrow> cs)\<rparr>;
          self = self\<lparr>self_args := args\<rparr>;
          self = self\<lparr>self_kwargs := kwargs\<rparr>
      in py_bind (init_plugin self args kwargs) (\<lambda>self.
           py_bind (view_init_request self args kwargs) (\<lambda>_. py_return self)))"

text \<open>
  The results of the calls of \<^verbatim>\<open>init_request\<close> on the given plugins, one after the
  other, each on the plugin with its four attributes set: what the opt-in checks answer.
\<close>

fun init_results ::
  "'s host \<Rightarrow> 's pyargs \<Rightarrow> 's pykwargs \<Rightarrow> 's plugin list \<Rightarrow> ('s, 's pyval list) comp" where
  "init_results self args kwargs [] = py_return []"
| "init_results self args kwargs (p # ps) =
     py_bind (init_request (cls p) (p_fields (set_request_attrs self p)) args kwargs) (\<lambda>r.
       py_bind (init_results self args kwargs ps) (\<lambda>rs. py_return (r # rs)))"

text \<open>
  The plugins kept by the test of line 310, \<^verbatim>\<open>result is not False\<close>, given the plugins
  and the results of their opt-in checks, position by position.
\<close>

definition selected :: "'s plugin list \<Rightarrow> 's pyval list \<Rightarrow> 's plugin list" where
  "selected ps rs = map fst (filter (\<lambda>x. \<not> is_False (snd x)) (zip ps rs))"

text \<open>
  The answers of the opt-in checks of the given plugin instances: \<^verbatim>\<open>init_request\<close> is
  called on every instance of the list, in the order of the list, on the attributes the
  instance has, and an exception of a call ends the pass.
\<close>

fun opt_in_answers ::
  "'s pyargs \<Rightarrow> 's pykwargs \<Rightarrow> 's plugin list \<Rightarrow> ('s, 's pyval list) comp" where
  "opt_in_answers args kwargs [] = py_return []"
| "opt_in_answers args kwargs (p # ps) =
     py_bind (init_request (cls p) (p_fields p) args kwargs) (\<lambda>r.
       py_bind (opt_in_answers args kwargs ps) (\<lambda>rs. py_return (r # rs)))"

subsection \<open>The hooks of \<^verbatim>\<open>BaseAdminView\<close> (lines 314-324)\<close>

definition get_media_base ::
  "'s host \<Rightarrow> 's pyargs \<Rightarrow> 's pykwargs \<Rightarrow> ('s, 's pyval) comp" where
  "get_media_base self args kwargs =
     (if args = [] \<and> kwargs = [] then py_return (PObj ''forms.Media()'')
      else py_raise TypeError)"

definition get_media :: "'s host \<Rightarrow> 's pyargs \<Rightarrow> 's pykwargs \<Rightarrow> ('s, 's pyval) comp" where
  "get_media = filter_hook ''get_media'' get_media_base"

definition media :: "'s host \<Rightarrow> ('s, 's pyval) comp" where
  "media self = get_media self [] []"

definition get_context_base ::
  "'s host \<Rightarrow> 's pyargs \<Rightarrow> 's pykwargs \<Rightarrow> ('s, 's pyval) comp" where
  "get_context_base self args kwargs =
     (if args = [] \<and> kwargs = [] then
        py_bind (media self) (\<lambda>m.
          py_return (PDict [(''admin_view'', PObj (ident self)), (''media'', m)]))
      else py_raise TypeError)"

definition get_context :: "'s host \<Rightarrow> 's pyargs \<Rightarrow> 's pykwargs \<Rightarrow> ('s, 's pyval) comp" where
  "get_context = filter_hook ''get_context'' get_context_base"

subsection \<open>Example plugins\<close>

text \<open>
  The examples run on a state that is the list of the messages logged so far, so that the
  order of the calls can be read off. \<^verbatim>\<open>setitem\<close> is \<^verbatim>\<open>d[k] = v\<close> followed by
  \<^verbatim>\<open>return d\<close>; \<^verbatim>\<open>BaseAdminPlugin_init_request\<close> is the method of lines 250-260, whose
  body is \<^verbatim>\<open>pass\<close>.
\<close>

definition log :: "string \<Rightarrow> (string list, unit) comp" where
  "log msg = (\<lambda>s. (Inr (), s @ [msg]))"

fun setitem :: "'s pyval \<Rightarrow> string \<Rightarrow> 's pyval \<Rightarrow> ('s, 's pyval) comp" where
  "setitem (PDict d) k v = py_return (PDict (AList.update k v d))"
| "setitem _ k v = py_raise TypeError"

definition BaseAdminPlugin_init_request ::
  "'s plugin_fields \<Rightarrow> 's pyargs \<Rightarrow> 's pykwargs \<Rightarrow> ('s, 's pyval) comp" where
  "BaseAdminPlugin_init_request flds args kwargs = py_return PNone"

definition plugin_class_with :: "string \<Rightarrow> 's pymethod \<Rightarrow> 's plugin_class" where
  "plugin_class_with tag fm =
     \<lparr>class_attrs = (\<lambda>flds name. if name = tag then Some (Callable fm) else None),
      init_request = BaseAdminPlugin_init_request\<rparr>"

text \<open>A new view object of a class with the given \<^verbatim>\<open>plugin_classes\<close>, and a request.\<close>

definition new_view :: "string \<Rightarrow> 's plugin_class list option \<Rightarrow> 's host" where
  "new_view name cs =
     \<lparr>ident = name, admin_site = ''site'', model = None, plugin_classes = cs,
      request = \<lparr>req_method = [], req_user = PNone\<rparr>, request_method = [], user = PNone,
      base_plugins = [], self_args = [], self_kwargs = [], plugins = []\<rparr>"

definition a_request :: "'s http_request" where
  "a_request = \<lparr>req_method = ''GET'', req_user = PObj ''admin''\<rparr>"

text \<open>The view \<^verbatim>\<open>V\<close> that \<^verbatim>\<open>__init__\<close> leaves, for a class with the given plugin classes.\<close>

definition view_of :: "string list plugin_class list \<Rightarrow> string list host" where
  "view_of cs =
     (case BaseAdminView_init (new_view ''V'' (Some cs)) a_request [] [] [] of
        (Inr V, s) \<Rightarrow> V
      | (Inl e, s) \<Rightarrow> new_view ''V'' (Some cs))"

text \<open>
  \<^verbatim>\<open>def get_context(self, __): log; r = __(); log; return r\<close>: an implementation that
  takes the continuation and calls it once.
\<close>

fun call_through ::
  "string \<Rightarrow> string list pyargs \<Rightarrow> string list pykwargs
     \<Rightarrow> (string list, string list pyval) comp" where
  "call_through name [PFunc f] [] =
     py_bind (log (name @ '' enter'')) (\<lambda>_.
       py_bind f (\<lambda>r. py_bind (log (name @ '' exit'')) (\<lambda>_. py_return r)))"
| "call_through name _ _ = py_raise TypeError"

definition tracer :: "string \<Rightarrow> int option \<Rightarrow> string list plugin_class" where
  "tracer name prio = plugin_class_with ''get_context''
     \<lparr>priority = prio, argspec = Some [''self'', ''__''], call = call_through name\<rparr>"

text \<open>
  The two plugins of scenario B:
  \<^verbatim>\<open>def get_context(self, __): context = __(); context['x'] = 1; return context\<close> with
  priority 5, and
  \<^verbatim>\<open>def get_context(self, context): context['y'] = 2; return context\<close> with priority 20.
  Each logs its name when it is entered.
\<close>

fun P1_get_context ::
  "string list pyargs \<Rightarrow> string list pykwargs \<Rightarrow> (string list, string list pyval) comp" where
  "P1_get_context [PFunc f] [] =
     py_bind (log ''P1'') (\<lambda>_. py_bind f (\<lambda>context. setitem context ''x'' (PInt 1)))"
| "P1_get_context _ _ = py_raise TypeError"

fun P2_get_context ::
  "string list pyargs \<Rightarrow> string list pykwargs \<Rightarrow> (string list, string list pyval) comp" where
  "P2_get_context [context] [] =
     py_bind (log ''P2'') (\<lambda>_. setitem context ''y'' (PInt 2))"
| "P2_get_context _ _ = py_raise TypeError"

definition P1 :: "string list plugin_class" where
  "P1 = plugin_class_with ''get_context''
     \<lparr>priority = Some 5, argspec = Some [''self'', ''__''], call = P1_get_context\<rparr>"

definition P2 :: "string list plugin_class" where
  "P2 = plugin_class_with ''get_context''
     \<lparr>priority = Some 20, argspec = Some [''self'', ''context''], call = P2_get_context\<rparr>"

text \<open>
  A decorated method in the manner of \<^verbatim>\<open>message_user\<close> (lines 434-441), which returns
  nothing: \<^verbatim>\<open>def message_user(self, message, level='info')\<close> posts the message when
  \<^verbatim>\<open>messages\<close> has a callable of the level's name, here by logging it. \<^verbatim>\<open>returning v\<close>
  is a decorated method that logs its call and returns \<^verbatim>\<open>v\<close>. \<^verbatim>\<open>recorder\<close> is a plugin
  whose implementation, of the given argument names, logs the arguments it receives, and
  \<^verbatim>\<open>observer\<close> one whose implementation takes \<^verbatim>\<open>self\<close> only.
\<close>

definition post :: "string \<Rightarrow> string \<Rightarrow> (string list, string list pyval) comp" where
  "post level message =
     (if level \<in> set [''debug'', ''info'', ''success'', ''warning'', ''error'']
      then py_bind (log (level @ '': '' @ message)) (\<lambda>_. py_return PNone)
      else py_return PNone)"

definition message_user_base ::
  "string list host \<Rightarrow> string list pyargs \<Rightarrow> string list pykwargs
     \<Rightarrow> (string list, string list pyval) comp" where
  "message_user_base self args kwargs =
     (case args of
        [PStr message] \<Rightarrow>
          (case kwargs of
             [] \<Rightarrow> post ''info'' message
           | [(name, PStr level)] \<Rightarrow>
               if name = ''level'' then post level message else py_raise TypeError
           | _ \<Rightarrow> py_raise TypeError)
      | _ \<Rightarrow> py_raise TypeError)"

definition returning ::
  "string list pyval \<Rightarrow> string list host \<Rightarrow> string list pyargs \<Rightarrow> string list pykwargs
     \<Rightarrow> (string list, string list pyval) comp" where
  "returning v self args kwargs = py_bind (log ''base'') (\<lambda>_. py_return v)"

fun describe :: "'s pyval \<Rightarrow> string" where
  "describe PNone = ''None''"
| "describe (PStr x) = x"
| "describe (PFunc f) = ''<function>''"
| "describe _ = ''<value>''"

definition recorder :: "string \<Rightarrow> string list \<Rightarrow> string list plugin_class" where
  "recorder tag names = plugin_class_with tag
     \<lparr>priority = None, argspec = Some names,
      call = (\<lambda>args kwargs.
        py_bind (log (concat (map (\<lambda>a. describe a @ '';'') args)
                      @ concat (map (\<lambda>(k, v). k @ ''='' @ describe v @ '';'') kwargs)))
          (\<lambda>_. py_return (PStr ''recorded'')))\<rparr>"

definition observer :: "string \<Rightarrow> string list plugin_class" where
  "observer tag = plugin_class_with tag
     \<lparr>priority = None, argspec = Some [''self''],
      call = (\<lambda>args kwargs. py_bind (log ''observer'') (\<lambda>_. py_return (PStr ''seen'')))\<rparr>"

text \<open>
  Plugins for the initialisation pass: \<^verbatim>\<open>answering name v\<close> logs the call of its
  \<^verbatim>\<open>init_request\<close> and returns \<^verbatim>\<open>v\<close>; \<^verbatim>\<open>only_post\<close> reads \<^verbatim>\<open>self.request\<close>, in the
  manner of the example in the docstring of lines 251-259, and raises when the attribute
  is not there; \<^verbatim>\<open>with_attribute\<close> has an attribute that is not callable.
  \<^verbatim>\<open>prepared_view\<close> is \<^verbatim>\<open>self\<close> as line 274 finds it, for the request above.
\<close>

definition answering :: "string \<Rightarrow> string list pyval \<Rightarrow> string list plugin_class" where
  "answering name v =
     \<lparr>class_attrs = (\<lambda>flds tag.
        if tag = ''get_context''
        then Some (Callable \<lparr>priority = None, argspec = Some [''self'', ''__''],
                             call = call_through name\<rparr>)
        else None),
      init_request = (\<lambda>flds args kwargs.
        py_bind (log (name @ '' init'')) (\<lambda>_. py_return v))\<rparr>"

definition only_post :: "string list plugin_class" where
  "only_post =
     \<lparr>class_attrs = (\<lambda>flds tag.
        if tag = ''get_context''
        then Some (Callable \<lparr>priority = Some 1, argspec = Some [''self'', ''__''],
                             call = call_through ''post''\<rparr>)
        else None),
      init_request = (\<lambda>flds args kwargs.
        case p_request flds of
          None \<Rightarrow> py_raise (Raised ''AttributeError'')
        | Some r \<Rightarrow> py_return (PBool (req_method r = ''POST'')))\<rparr>"

definition prepared_view :: "string list plugin_class list \<Rightarrow> string list host" where
  "prepared_view cs =
     (let self = (new_view ''V'' (Some cs))
                   \<lparr>request := a_request, request_method := ''get'', user := PObj ''admin''\<rparr>
      in self\<lparr>base_plugins := map (\<lambda>c. BaseAdminPlugin_init c self) cs,
              self_args := [], self_kwargs := []\<rparr>)"

definition some_plugins :: "string list plugin_class list" where
  "some_plugins =
     [answering ''a'' PNone, answering ''b'' (PBool False), answering ''c'' (PInt 0),
      only_post, answering ''d'' (PBool True)]"

definition with_attribute :: "string \<Rightarrow> string list pyval \<Rightarrow> string list plugin_class" where
  "with_attribute tag v =
     \<lparr>class_attrs = (\<lambda>flds name. if name = tag then Some (NonCallable v) else None),
      init_request = BaseAdminPlugin_init_request\<rparr>"

text \<open>
  \<^verbatim>\<open>check_token_base\<close> is a decorated method \<^verbatim>\<open>def check_token(self, token)\<close> that logs
  its call and returns its argument. \<^verbatim>\<open>swallower\<close> is a plugin of priority 1 whose
  implementation is \<^verbatim>\<open>try: return __()\<close> \<^verbatim>\<open>except Exception: return 'handled'\<close>.
  \<^verbatim>\<open>reads_attrs\<close> is a plugin whose \<^verbatim>\<open>init_request\<close> reads \<^verbatim>\<open>self.request\<close>,
  \<^verbatim>\<open>self.user\<close>, \<^verbatim>\<open>self.args\<close> and \<^verbatim>\<open>self.kwargs\<close>, logs them with its own arguments
  and returns \<^verbatim>\<open>False\<close>; reading an attribute that is not set raises.
\<close>

definition check_token_base ::
  "string list host \<Rightarrow> string list pyargs \<Rightarrow> string list pykwargs
     \<Rightarrow> (string list, string list pyval) comp" where
  "check_token_base self args kwargs =
     (case args of
        [] \<Rightarrow>
          (case kwargs of
             [(name, v)] \<Rightarrow>
               if name = ''token'' then py_bind (log ''checked'') (\<lambda>_. py_return v)
               else py_raise TypeError
           | _ \<Rightarrow> py_raise TypeError)
      | [v] \<Rightarrow>
          if kwargs = [] then py_bind (log ''checked'') (\<lambda>_. py_return v)
          else py_raise TypeError
      | _ \<Rightarrow> py_raise TypeError)"

fun swallow ::
  "string list pyargs \<Rightarrow> string list pykwargs \<Rightarrow> (string list, string list pyval) comp" where
  "swallow [PFunc f] [] =
     (\<lambda>s. case f s of (Inl e, s') \<Rightarrow> (Inr (PStr ''handled''), s') | (Inr v, s') \<Rightarrow> (Inr v, s'))"
| "swallow _ _ = py_raise TypeError"

definition swallower :: "string \<Rightarrow> string list plugin_class" where
  "swallower tag = plugin_class_with tag
     \<lparr>priority = Some 1, argspec = Some [''self'', ''__''], call = swallow\<rparr>"

definition reads_attrs :: "string list plugin_class" where
  "reads_attrs =
     \<lparr>class_attrs = (\<lambda>flds tag. None),
      init_request = (\<lambda>flds args kwargs.
        case p_request flds of
          None \<Rightarrow> py_raise (Raised ''AttributeError'')
        | Some r \<Rightarrow>
           (case p_user flds of
              None \<Rightarrow> py_raise (Raised ''AttributeError'')
            | Some u \<Rightarrow>
               (case p_args flds of
                  None \<Rightarrow> py_raise (Raised ''AttributeError'')
                | Some a \<Rightarrow>
                   (case p_kwargs flds of
                      None \<Rightarrow> py_raise (Raised ''AttributeError'')
                    | Some k \<Rightarrow>
                        py_bind
                          (log (concat (map (\<lambda>x. x @ '';'')
                                  ([req_method r, (case u of PObj n \<Rightarrow> n | _ \<Rightarrow> ''?'')]
                                   @ map describe a @ map fst k
                                   @ map describe args @ map fst kwargs))))
                          (\<lambda>_. py_return (PBool False))))))\<rparr>"

section \<open>Properties\<close>

subsection \<open>Running the examples\<close>

lemma py_bind_apply:
  "py_bind m f s = (case m s of (Inl e, s') \<Rightarrow> (Inl e, s') | (Inr v, s') \<Rightarrow> f v s')"
  by (simp add: py_bind_def)

lemmas run_simps = py_bind_apply py_return_def py_raise_def log_def

lemmas view_simps =
  view_of_def BaseAdminView_init_def init_plugin_def new_view_def a_request_def Let_def
  BaseAdminPlugin_init_def set_request_attrs_def plugin_class_with_def
  BaseAdminPlugin_init_request_def view_init_request_def lower_def char_lower_def

lemmas hook_simps =
  get_context_def get_media_def media_def get_context_base_def get_media_base_def
  filter_hook_def hook_filters_def getattr_def getattr_priority_def multiple_values_def
  inner_method_def list_index_def getargspec_def

subsection \<open>The chain is the nesting of the stages\<close>

lemma filter_chain_multiple_values:
  "multiple_values [''filters'', ''token'', ''func''] kwargs \<Longrightarrow>
     filter_chain filters token func args kwargs = py_raise TypeError"
  by (subst filter_chain.simps) simp

lemma filter_chain_base:
  "\<not> multiple_values [''filters'', ''token'', ''func''] kwargs \<Longrightarrow>
     filter_chain filters (- 1) func args kwargs = func"
  by (subst filter_chain.simps) simp

lemma list_index_nat: "k < length xs \<Longrightarrow> list_index xs (int k) = Inr (xs ! k)"
  by (simp add: list_index_def)

lemma list_index_single: "list_index [x] 0 = Inr x"
  by (simp add: list_index_def)

lemma inner_method_nth:
  "k < length filters \<Longrightarrow>
     inner_method filters (int k) func args kwargs = inner_method [filters ! k] 0 func args kwargs"
  by (simp add: inner_method_def list_index_nat list_index_single)

lemma filter_chain_step:
  "\<not> multiple_values [''filters'', ''token'', ''func''] kwargs \<Longrightarrow>
     filter_chain filters (int n) func args kwargs =
       filter_chain filters (int n - 1) (inner_method filters (int n) func args kwargs) args kwargs"
  by (subst filter_chain.simps) simp

lemma filter_chain_take:
  "\<not> multiple_values [''filters'', ''token'', ''func''] kwargs \<Longrightarrow> n \<le> length filters \<Longrightarrow>
     filter_chain filters (int n - 1) func args kwargs =
       foldr (\<lambda>fm inner. inner_method [fm] 0 inner args kwargs) (take n filters) func"
proof (induction n arbitrary: func)
  case 0
  then show ?case by (simp add: filter_chain_base)
next
  case (Suc n)
  then have n: "n < length filters" by simp
  have "filter_chain filters (int (Suc n) - 1) func args kwargs =
          filter_chain filters (int n - 1) (inner_method filters (int n) func args kwargs) args kwargs"
    using filter_chain_step [OF Suc.prems(1), of filters n func args] by simp
  also have "\<dots> = foldr (\<lambda>fm inner. inner_method [fm] 0 inner args kwargs) (take n filters)
                     (inner_method [filters ! n] 0 func args kwargs)"
    using Suc.IH [of "inner_method filters (int n) func args kwargs"] n Suc.prems(1)
    by (simp add: inner_method_nth)
  also have "\<dots> = foldr (\<lambda>fm inner. inner_method [fm] 0 inner args kwargs)
                     (take (Suc n) filters) func"
    using n by (simp add: take_Suc_conv_app_nth)
  finally show ?case .
qed

lemma continuation_step:
  "k < length filters \<Longrightarrow>
     continuation filters k func args kwargs =
       inner_method filters (int k) (continuation filters (Suc k) func args kwargs) args kwargs"
  by (subst continuation.simps) simp

lemma continuation_end:
  "length filters \<le> k \<Longrightarrow> continuation filters k func args kwargs = func"
  by (subst continuation.simps) simp

lemma continuation_drop:
  "continuation filters k func args kwargs =
     foldr (\<lambda>fm inner. inner_method [fm] 0 inner args kwargs) (drop k filters) func"
proof (induction filters k func args kwargs rule: continuation.induct)
  case (1 filters k func args kwargs)
  show ?case
  proof (cases "k < length filters")
    case True
    then have "drop k filters = filters ! k # drop (Suc k) filters"
      by (simp add: Cons_nth_drop_Suc)
    with True "1.IH" show ?thesis
      by (simp add: continuation_step inner_method_nth)
  next
    case False
    then show ?thesis by (simp add: continuation_end)
  qed
qed

lemma filter_chain_continuation:
  "\<not> multiple_values [''filters'', ''token'', ''func''] kwargs \<Longrightarrow>
     filter_chain filters (int (length filters) - 1) func args kwargs =
       continuation filters 0 func args kwargs"
  by (simp add: filter_chain_take continuation_drop)

lemma inner_method_observer:
  "k < length filters \<Longrightarrow> observer_mode (filters ! k) \<Longrightarrow>
     inner_method filters (int k) func args kwargs =
       py_bind func (\<lambda>result. if is_None result then call (filters ! k) [] []
                               else py_raise IncorrectPluginArg)"
  by (auto simp: inner_method_def list_index_nat observer_mode_def getargspec_def
      split: option.splits list.splits)

lemma inner_method_continuation:
  "k < length filters \<Longrightarrow> continuation_mode (filters ! k) \<Longrightarrow>
     inner_method filters (int k) func args kwargs =
       call (filters ! k) (PFunc func # args) kwargs"
  by (auto simp: inner_method_def list_index_nat continuation_mode_def getargspec_def
      list_index_def split: option.splits list.splits)

lemma inner_method_result:
  "k < length filters \<Longrightarrow> result_mode (filters ! k) \<Longrightarrow>
     inner_method filters (int k) func args kwargs =
       py_bind func (\<lambda>result. call (filters ! k) (result # args) kwargs)"
  by (auto simp: inner_method_def list_index_nat result_mode_def getargspec_def
      list_index_def split: option.splits list.splits)


lemma hook_pairs_fst:
  "x \<in> set (hook_pairs tag ps) \<Longrightarrow> fst x = getattr_priority (snd x)"
  by (induction ps) (auto split: option.splits attr.splits)

lemma hook_pairs_snd:
  "fm \<in> snd ` set (hook_pairs tag ps) \<longleftrightarrow> (\<exists>p \<in> set ps. getattr p tag = Some (Callable fm))"
  by (induction ps) (auto split: option.splits attr.splits simp: image_iff)

lemma hook_pairs_filter:
  "hook_pairs tag (filter (\<lambda>p. callable (getattr p tag)) ps) = hook_pairs tag ps"
  by (induction ps) (auto split: option.splits attr.splits)

lemma hook_pairs_length:
  "length (hook_pairs tag ps) = length (filter (\<lambda>p. callable (getattr p tag)) ps)"
  by (induction ps) (auto split: option.splits attr.splits)

lemma hook_filters_priorities:
  "map getattr_priority (hook_filters tag ps) = map fst (sort_key fst (hook_pairs tag ps))"
  by (simp add: hook_filters_def hook_pairs_fst)

lemma hook_filters_sorted: "sorted (map getattr_priority (hook_filters tag ps))"
  by (simp add: hook_filters_priorities)

lemma hook_filters_strict:
  assumes "distinct (map fst (hook_pairs tag ps))"
  shows "sorted_wrt (<) (map getattr_priority (hook_filters tag ps))"
proof -
  have "mset (map fst (sort_key fst (hook_pairs tag ps))) = mset (map fst (hook_pairs tag ps))"
    by simp
  then have "distinct (map fst (sort_key fst (hook_pairs tag ps)))"
    using assms by (metis mset_eq_imp_distinct_iff)
  then show ?thesis
    by (simp add: hook_filters_priorities strict_sorted_iff)
qed

lemma hook_filters_stable:
  "filter (\<lambda>fm. getattr_priority fm = n) (hook_filters tag ps) =
     filter (\<lambda>fm. getattr_priority fm = n) (map snd (hook_pairs tag ps))"
proof -
  have "filter (\<lambda>fm. getattr_priority fm = n) (map snd xs) =
          map snd (filter (\<lambda>x. fst x = n) xs)"
    if "\<And>x. x \<in> set xs \<Longrightarrow> fst x = getattr_priority (snd x)"
    for xs :: "(int \<times> 'a pymethod) list"
    using that by (induction xs) auto
  note conv = this
  have "filter (\<lambda>fm. getattr_priority fm = n) (hook_filters tag ps) =
          map snd (filter (\<lambda>x. fst x = n) (sort_key fst (hook_pairs tag ps)))"
    unfolding hook_filters_def by (rule conv) (simp add: hook_pairs_fst)
  also have "\<dots> = map snd (filter (\<lambda>x. fst x = n) (hook_pairs tag ps))"
    by (simp add: sort_key_stable)
  also have "\<dots> = filter (\<lambda>fm. getattr_priority fm = n) (map snd (hook_pairs tag ps))"
    by (rule conv [symmetric]) (simp add: hook_pairs_fst)
  finally show ?thesis .
qed

lemma filter_hook_cases:
  "filter_hook tag func self args kwargs =
     (if multiple_values [''self''] kwargs
         \<or> plugins self \<noteq> [] \<and> multiple_values [''filters'', ''token'', ''func''] kwargs
      then py_raise TypeError
      else continuation (hook_filters tag (plugins self)) 0 (func self args kwargs) args kwargs)"
proof (cases "plugins self = []")
  case True
  then show ?thesis
    by (simp add: filter_hook_def hook_filters_def continuation_end)
next
  case False
  then show ?thesis
    by (simp add: filter_hook_def Let_def filter_chain_continuation
        filter_chain_multiple_values)
qed

lemma filter_hook_continuation:
  "\<not> multiple_values [''self''] kwargs \<Longrightarrow>
   \<not> multiple_values [''filters'', ''token'', ''func''] kwargs \<Longrightarrow>
     filter_hook tag func self args kwargs =
       continuation (hook_filters tag (plugins self)) 0 (func self args kwargs) args kwargs"
  by (simp add: filter_hook_cases)

lemma observer_stage:
  "k < length filters \<Longrightarrow> observer_mode (filters ! k) \<Longrightarrow>
     continuation filters k func args kwargs s =
       (case continuation filters (Suc k) func args kwargs s of
          (Inl e, s') \<Rightarrow> (Inl e, s')
        | (Inr v, s') \<Rightarrow>
            if is_None v then call (filters ! k) [] [] s' else (Inl IncorrectPluginArg, s'))"
  by (simp add: continuation_step inner_method_observer py_bind_apply py_raise_def
      split: prod.splits sum.splits)

lemma result_stage:
  "k < length filters \<Longrightarrow> result_mode (filters ! k) \<Longrightarrow>
     continuation filters k func args kwargs s =
       (case continuation filters (Suc k) func args kwargs s of
          (Inl e, s') \<Rightarrow> (Inl e, s')
        | (Inr v, s') \<Rightarrow> call (filters ! k) (v # args) kwargs s')"
  by (simp add: continuation_step inner_method_result py_bind_apply)

lemma stage_propagates:
  "k < length filters \<Longrightarrow> observer_mode (filters ! k) \<or> result_mode (filters ! k) \<Longrightarrow>
     continuation filters (Suc k) func args kwargs s = (Inl e, s') \<Longrightarrow>
     continuation filters k func args kwargs s = (Inl e, s')"
  by (auto simp: observer_stage result_stage)

lemma propagates_outward:
  "k \<le> length filters \<Longrightarrow> \<forall>j < k. observer_mode (filters ! j) \<or> result_mode (filters ! j) \<Longrightarrow>
     continuation filters k func args kwargs s = (Inl e, s') \<Longrightarrow>
     continuation filters 0 func args kwargs s = (Inl e, s')"
proof (induction k)
  case 0
  then show ?case by simp
next
  case (Suc k)
  from Suc.prems have "k < length filters"
    and "observer_mode (filters ! k) \<or> result_mode (filters ! k)"
    by auto
  from stage_propagates [OF this Suc.prems(3)]
  have "continuation filters k func args kwargs s = (Inl e, s')" .
  with Suc show ?case by simp
qed

lemma is_None_iff: "is_None v \<longleftrightarrow> v = PNone"
  by (cases v) simp_all

subsection \<open>The initialisation pass\<close>

lemma init_results_length:
  "init_results self args kwargs ps s = (Inr rs, s') \<Longrightarrow> length rs = length ps"
proof (induction ps arbitrary: rs s)
  case Nil
  then show ?case by (simp add: py_return_def)
next
  case (Cons p ps)
  then show ?case
    by (auto simp: py_bind_apply py_return_def split: prod.splits sum.splits)
qed

lemma cls_set_request_attrs: "cls (set_request_attrs self p) = cls p"
  by (simp add: set_request_attrs_def)

lemma init_plugin_loop_results:
  "init_plugin_loop self args kwargs ps active s =
     (case init_results self args kwargs ps s of
        (Inl e, s') \<Rightarrow> (Inl e, s')
      | (Inr rs, s') \<Rightarrow>
          (Inr (active @ selected (map (set_request_attrs self) ps) rs), s'))"
proof (induction ps arbitrary: active s)
  case Nil
  show ?case by (simp add: py_return_def selected_def)
next
  case (Cons p ps)
  show ?case
  proof (cases "init_request (cls p) (p_fields (set_request_attrs self p)) args kwargs s")
    case (Pair r s1)
    show ?thesis
    proof (cases r)
      case (Inl e)
      with Pair show ?thesis
        by (simp add: Let_def py_bind_apply cls_set_request_attrs)
    next
      case (Inr v)
      with Pair show ?thesis
        by (cases "init_results self args kwargs ps s1")
          (simp add: Cons.IH Let_def py_bind_apply py_return_def selected_def
            cls_set_request_attrs split: sum.splits)
    qed
  qed
qed

lemma is_False_iff: "is_False r \<longleftrightarrow> r = PBool False"
  by (cases r) simp_all

lemma selected_nths:
  "length ps = length rs \<Longrightarrow>
     selected ps rs = nths ps {i. i < length rs \<and> \<not> is_False (rs ! i)}"
proof (induction ps rs rule: list_induct2)
  case Nil
  show ?case by (simp add: selected_def)
next
  case (Cons p ps r rs)
  have "{j. Suc j \<in> {i. i < length (r # rs) \<and> \<not> is_False ((r # rs) ! i)}} =
          {i. i < length rs \<and> \<not> is_False (rs ! i)}"
    by auto
  with Cons show ?case
    by (simp add: selected_def nths_Cons)
qed

lemmas init_simps =
  some_plugins_def answering_def only_post_def prepared_view_def cls_set_request_attrs

lemma hook_pairs_none:
  "\<forall>p \<in> set ps. \<not> callable (getattr p tag) \<Longrightarrow> hook_pairs tag ps = []"
proof (induction ps)
  case Nil
  show ?case by simp
next
  case (Cons p ps)
  from Cons.prems have "\<not> callable (getattr p tag)" by simp
  then have "(case getattr p tag of Some (Callable fm) \<Rightarrow>
                (getattr_priority fm, fm) # hook_pairs tag ps | _ \<Rightarrow> hook_pairs tag ps)
             = hook_pairs tag ps"
    by (cases "getattr p tag" rule: callable.cases) simp_all
  with Cons show ?case by simp
qed

lemma filter_hook_no_implementation:
  assumes "\<not> multiple_values [''self''] kwargs"
    and "plugins self = []
      \<or> \<not> multiple_values [''filters'', ''token'', ''func''] kwargs
        \<and> (\<forall>p \<in> set (plugins self). \<not> callable (getattr p tag))"
  shows "filter_hook tag func self args kwargs = func self args kwargs"
  using assms(2)
proof
  assume "plugins self = []"
  with assms(1) show ?thesis by (simp add: filter_hook_def)
next
  assume a: "\<not> multiple_values [''filters'', ''token'', ''func''] kwargs
        \<and> (\<forall>p \<in> set (plugins self). \<not> callable (getattr p tag))"
  then have "hook_filters tag (plugins self) = []"
    by (simp add: hook_filters_def hook_pairs_none)
  with a assms(1) show ?thesis
    by (simp add: filter_hook_def Let_def filter_chain_base)
qed

lemma opt_in_answers_length:
  "opt_in_answers args kwargs ps s = (Inr rs, s') \<Longrightarrow> length rs = length ps"
proof (induction ps arbitrary: rs s)
  case Nil
  then show ?case by (simp add: py_return_def)
next
  case (Cons p ps)
  then show ?case
    by (auto simp: py_bind_apply py_return_def split: prod.splits sum.splits)
qed

lemma init_results_answers:
  "init_results self args kwargs ps =
     opt_in_answers args kwargs (map (set_request_attrs self) ps)"
  by (induction ps) (simp_all add: cls_set_request_attrs)

subsection \<open>Claims\<close>

text \<open>
  C1: for a hook whose matched implementations have distinct priorities, the sorted list of
  implementations is strictly increasing in priority, and the hook call, when it runs a
  chain at all, is the continuation at index 0 of that list (the call is a \<^verbatim>\<open>TypeError\<close>
  with nothing run when a keyword is named \<^verbatim>\<open>self\<close>, or, with plugins attached,
  \<^verbatim>\<open>filters\<close>, \<^verbatim>\<open>token\<close> or \<^verbatim>\<open>func\<close>): the stage of the lowest priority value is the outermost one and
  is entered first, and the stage at each index is the closure of that implementation
  around the continuation of the next index. A stage in continuation mode calls its
  implementation with the uninvoked continuation of the next index, that is the stage of
  the next-higher priority value, followed by the arguments of the hook call; past the
  last stage the continuation is the decorated method applied to the receiver and the
  original arguments. (A stage in result mode runs the continuation of the next index
  itself and then calls its implementation.)
\<close>

theorem chain_ordering:
  assumes "distinct (map fst (hook_pairs tag (plugins self)))"
    and "filters = hook_filters tag (plugins self)"
    and "base = func self args kwargs"
  shows "sorted_wrt (<) (map getattr_priority filters)
    \<and> mset filters = mset (map snd (hook_pairs tag (plugins self)))
    \<and> filter_hook tag func self args kwargs =
        (if multiple_values [''self''] kwargs
            \<or> plugins self \<noteq> [] \<and> multiple_values [''filters'', ''token'', ''func''] kwargs
         then py_raise TypeError
         else continuation filters 0 base args kwargs)
    \<and> (\<forall>k < length filters.
          continuation filters k base args kwargs =
            inner_method filters (int k) (continuation filters (Suc k) base args kwargs)
              args kwargs)
    \<and> (\<forall>k < length filters. continuation_mode (filters ! k) \<longrightarrow>
          continuation filters k base args kwargs =
            call (filters ! k) (PFunc (continuation filters (Suc k) base args kwargs) # args) kwargs)
    \<and> (\<forall>k < length filters. result_mode (filters ! k) \<longrightarrow>
          continuation filters k base args kwargs =
            py_bind (continuation filters (Suc k) base args kwargs)
              (\<lambda>result. call (filters ! k) (result # args) kwargs))
    \<and> continuation filters (length filters) base args kwargs = base"
proof -
  have "sorted_wrt (<) (map getattr_priority filters)"
    using assms(1,2) by (simp add: hook_filters_strict)
  moreover have "mset filters = mset (map snd (hook_pairs tag (plugins self)))"
    using assms(2) by (simp add: hook_filters_def)
  moreover have "filter_hook tag func self args kwargs =
      (if multiple_values [''self''] kwargs
          \<or> plugins self \<noteq> [] \<and> multiple_values [''filters'', ''token'', ''func''] kwargs
       then py_raise TypeError
       else continuation filters 0 base args kwargs)"
    unfolding assms(2,3) by (rule filter_hook_cases)
  moreover have "continuation filters k base args kwargs =
      inner_method filters (int k) (continuation filters (Suc k) base args kwargs) args kwargs"
    if "k < length filters" for k
    using that by (rule continuation_step)
  moreover have "continuation filters k base args kwargs =
      call (filters ! k) (PFunc (continuation filters (Suc k) base args kwargs) # args) kwargs"
    if "k < length filters" "continuation_mode (filters ! k)" for k
    using that by (simp add: continuation_step inner_method_continuation)
  moreover have "continuation filters k base args kwargs =
      py_bind (continuation filters (Suc k) base args kwargs)
        (\<lambda>result. call (filters ! k) (result # args) kwargs)"
    if "k < length filters" "result_mode (filters ! k)" for k
    using that by (simp add: continuation_step inner_method_result)
  moreover have "continuation filters (length filters) base args kwargs = base"
    by (simp add: continuation_end)
  ultimately show ?thesis by blast
qed

theorem chain_ordering_witness:
  "distinct (map fst (hook_pairs ''get_context''
      (plugins (view_of [tracer ''a'' (Some 20), tracer ''b'' (Some 5), tracer ''c'' None]))))
   \<and> map getattr_priority (hook_filters ''get_context''
        (plugins (view_of [tracer ''a'' (Some 20), tracer ''b'' (Some 5), tracer ''c'' None])))
       = [5, 10, 20]
   \<and> get_context (view_of [tracer ''a'' (Some 20), tracer ''b'' (Some 5), tracer ''c'' None])
        [] [] [] =
       (Inr (PDict [(''admin_view'', PObj ''V''), (''media'', PObj ''forms.Media()'')]),
        [''b enter'', ''c enter'', ''a enter'', ''a exit'', ''c exit'', ''b exit''])"
proof -
  let ?V = "view_of [tracer ''a'' (Some 20), tracer ''b'' (Some 5), tracer ''c'' None]"
  let ?fs = "hook_filters ''get_context'' (plugins ?V)"
  have d: "distinct (map fst (hook_pairs ''get_context'' (plugins ?V)))"
    by (simp add: view_simps run_simps tracer_def getattr_def getattr_priority_def)
  have p: "map getattr_priority ?fs = [5, 10, 20]"
    by (simp add: view_simps run_simps tracer_def hook_simps)
  have "\<not> (multiple_values [''self''] ([] :: string list pykwargs)
           \<or> plugins ?V \<noteq> []
             \<and> multiple_values [''filters'', ''token'', ''func''] ([] :: string list pykwargs))"
    by (simp add: multiple_values_def)
  with chain_ordering [OF d refl refl, of get_context_base "[]" "[]"]
  have "filter_hook ''get_context'' get_context_base ?V [] [] =
          continuation ?fs 0 (get_context_base ?V [] []) [] []"
    by presburger
  moreover have "continuation ?fs 0 (get_context_base ?V [] []) [] [] [] =
      (Inr (PDict [(''admin_view'', PObj ''V''), (''media'', PObj ''forms.Media()'')]),
       [''b enter'', ''c enter'', ''a enter'', ''a exit'', ''c exit'', ''b exit''])"
    by (simp add: view_simps run_simps tracer_def hook_simps continuation.simps
        filter_chain.simps)
  ultimately show ?thesis
    using d p by (simp add: get_context_def)
qed

text \<open>
  C3: when no active plugin implements a hook, the decorated method is to give what the
  undecorated method gives for the same receiver and arguments. With an empty list of
  plugins it does (line 68), and with plugins of which none implements the hook it does
  for positional arguments. But line 66 forwards the keyword arguments of the call to
  \<^verbatim>\<open>filter_chain\<close>, whose own parameters are named \<^verbatim>\<open>filters\<close>, \<^verbatim>\<open>token\<close> and \<^verbatim>\<open>func\<close>:
  for \<^verbatim>\<open>check_token(token=1)\<close> on a view with one plugin, which does not implement the
  hook, the undecorated method returns 1 and the decorated one raises \<^verbatim>\<open>TypeError\<close> with
  nothing run.
\<close>

theorem identity_keyword_clash:
  "plugins (view_of [tracer ''a'' None]) \<noteq> []
   \<and> map (\<lambda>p. callable (getattr p ''check_token'')) (plugins (view_of [tracer ''a'' None]))
       = [False]
   \<and> check_token_base (view_of [tracer ''a'' None]) [] [(''token'', PInt 1)] [] =
       (Inr (PInt 1), [''checked''])
   \<and> filter_hook ''check_token'' check_token_base (view_of [tracer ''a'' None])
        [] [(''token'', PInt 1)] [] =
       (Inl TypeError, [])
   \<and> filter_hook ''check_token'' check_token_base (view_of [tracer ''a'' None])
        [PInt 1] [] [] =
       (Inr (PInt 1), [''checked''])
   \<and> plugins (view_of []) = []
   \<and> filter_hook ''check_token'' check_token_base (view_of [])
        [] [(''token'', PInt 1)] [] =
       (Inr (PInt 1), [''checked''])"
  by (simp add: view_simps run_simps tracer_def hook_simps check_token_base_def
      filter_chain.simps)

text \<open>
  C2, as the claim states it, fails for the hook call as a whole: the outcome of a stage
  goes to the stages around it. With two observers on a method that returns nothing, the
  inner chain of the inner observer returns \<^verbatim>\<open>None\<close>, yet the hook call raises
  \<^verbatim>\<open>IncorrectPluginArg\<close> (the outer observer receives the inner observer's return value)
  and the inner observer's return value is not the result. With a plugin around the
  observer that handles exceptions, the inner chain of the observer returns a dict, the
  observer stage raises, and the hook call returns.
\<close>

theorem observer_contract_counterexample:
  "observer_mode (hook_filters ''message_user''
       (plugins (view_of [observer ''message_user'', observer ''message_user''])) ! 1)
   \<and> continuation (hook_filters ''message_user''
         (plugins (view_of [observer ''message_user'', observer ''message_user''])))
       2 (message_user_base (view_of [observer ''message_user'', observer ''message_user''])
            [PStr ''hi''] []) [PStr ''hi''] [] [] =
       (Inr PNone, [''info: hi''])
   \<and> filter_hook ''message_user'' message_user_base
        (view_of [observer ''message_user'', observer ''message_user'']) [PStr ''hi''] [] [] =
       (Inl IncorrectPluginArg, [''info: hi'', ''observer''])
   \<and> observer_mode (hook_filters ''get_context''
       (plugins (view_of [observer ''get_context'', swallower ''get_context''])) ! 1)
   \<and> continuation (hook_filters ''get_context''
         (plugins (view_of [observer ''get_context'', swallower ''get_context''])))
       2 (get_context_base (view_of [observer ''get_context'', swallower ''get_context''])
            [] []) [] [] [] =
       (Inr (PDict [(''admin_view'', PObj ''V''), (''media'', PObj ''forms.Media()'')]), [])
   \<and> continuation (hook_filters ''get_context''
         (plugins (view_of [observer ''get_context'', swallower ''get_context''])))
       1 (get_context_base (view_of [observer ''get_context'', swallower ''get_context''])
            [] []) [] [] [] =
       (Inl IncorrectPluginArg, [])
   \<and> get_context (view_of [observer ''get_context'', swallower ''get_context'']) [] [] [] =
       (Inr (PStr ''handled''), [])"
  by (simp add: view_simps run_simps observer_def swallower_def hook_simps observer_mode_def
      continuation.simps filter_chain.simps message_user_base_def post_def)

text \<open>
  C2, amended: at a stage whose implementation takes \<^verbatim>\<open>self\<close> only, when the inner chain
  of that stage returns a value other than \<^verbatim>\<open>None\<close> the stage raises
  \<^verbatim>\<open>IncorrectPluginArg\<close> instead of calling the implementation, and the hook call raises
  it too when its keyword arguments bind and every stage around is run by the engine
  (observer or result mode); when the inner chain returns \<^verbatim>\<open>None\<close> the stage does not
  raise the error itself: it is the call of the implementation without arguments, in the
  state the inner chain left, and its outcome is the outcome of the hook call when the
  stage is the outermost and the keyword arguments bind.
\<close>

theorem observer_contract:
  assumes "filters = hook_filters tag (plugins self)"
    and "k < length filters"
    and "observer_mode (filters ! k)"
    and "inner = continuation filters (Suc k) (func self args kwargs) args kwargs"
    and "stage = continuation filters k (func self args kwargs) args kwargs"
  shows "(\<forall>v s'. inner s = (Inr v, s') \<and> \<not> is_None v \<longrightarrow>
            stage s = (Inl IncorrectPluginArg, s')
            \<and> (\<not> multiple_values [''self''] kwargs
                \<and> \<not> multiple_values [''filters'', ''token'', ''func''] kwargs
                \<and> (\<forall>j < k. observer_mode (filters ! j) \<or> result_mode (filters ! j)) \<longrightarrow>
                 filter_hook tag func self args kwargs s = (Inl IncorrectPluginArg, s')))
    \<and> (\<forall>s'. inner s = (Inr PNone, s') \<longrightarrow>
            stage s = call (filters ! k) [] [] s'
            \<and> (\<not> multiple_values [''self''] kwargs
                \<and> \<not> multiple_values [''filters'', ''token'', ''func''] kwargs
                \<and> k = 0 \<longrightarrow>
                 filter_hook tag func self args kwargs s = call (filters ! k) [] [] s'))"
proof (intro conjI allI impI)
  fix v s'
  assume a: "inner s = (Inr v, s') \<and> \<not> is_None v"
  with assms show st: "stage s = (Inl IncorrectPluginArg, s')"
    by (simp add: observer_stage)
  assume b: "\<not> multiple_values [''self''] kwargs
      \<and> \<not> multiple_values [''filters'', ''token'', ''func''] kwargs
      \<and> (\<forall>j < k. observer_mode (filters ! j) \<or> result_mode (filters ! j))"
  with st assms(2,5)
  have "continuation filters 0 (func self args kwargs) args kwargs s = (Inl IncorrectPluginArg, s')"
    by (simp add: propagates_outward [where k = k])
  with assms(1) b show "filter_hook tag func self args kwargs s = (Inl IncorrectPluginArg, s')"
    by (simp add: filter_hook_continuation)
next
  fix s'
  assume a: "inner s = (Inr PNone, s')"
  with assms show st: "stage s = call (filters ! k) [] [] s'"
    by (simp add: observer_stage)
  assume "\<not> multiple_values [''self''] kwargs
      \<and> \<not> multiple_values [''filters'', ''token'', ''func''] kwargs
      \<and> k = 0"
  with st assms(1,5) show "filter_hook tag func self args kwargs s = call (filters ! k) [] [] s'"
    by (simp add: filter_hook_continuation)
qed

theorem observer_contract_witness:
  "length (hook_filters ''get_context'' (plugins (view_of [observer ''get_context'']))) = 1
   \<and> observer_mode (hook_filters ''get_context'' (plugins (view_of [observer ''get_context''])) ! 0)
   \<and> get_context (view_of [observer ''get_context'']) [] [] [] = (Inl IncorrectPluginArg, [])
   \<and> length (hook_filters ''message_user'' (plugins (view_of [observer ''message_user'']))) = 1
   \<and> observer_mode (hook_filters ''message_user'' (plugins (view_of [observer ''message_user''])) ! 0)
   \<and> filter_hook ''message_user'' message_user_base (view_of [observer ''message_user''])
        [PStr ''hi''] [] [] = (Inr (PStr ''seen''), [''info: hi'', ''observer''])"
proof -
  let ?V = "view_of [observer ''get_context'']"
  let ?W = "view_of [observer ''message_user'']"
  let ?fs = "hook_filters ''get_context'' (plugins ?V)"
  let ?gs = "hook_filters ''message_user'' (plugins ?W)"
  have l: "0 < length ?fs" "length ?fs = 1"
    by (simp_all add: view_simps run_simps observer_def hook_simps)
  have m: "0 < length ?gs" "length ?gs = 1"
    by (simp_all add: view_simps run_simps observer_def hook_simps)
  have o: "observer_mode (?fs ! 0)"
    by (simp add: view_simps run_simps observer_def hook_simps observer_mode_def)
  have p: "observer_mode (?gs ! 0)"
    by (simp add: view_simps run_simps observer_def hook_simps observer_mode_def)
  have b: "\<not> multiple_values [''self''] ([] :: string list pykwargs)"
    "\<not> multiple_values [''filters'', ''token'', ''func''] ([] :: string list pykwargs)"
    by (simp_all add: multiple_values_def)
  have i: "continuation ?fs (Suc 0) (get_context_base ?V [] []) [] [] [] =
      (Inr (PDict [(''admin_view'', PObj ''V''), (''media'', PObj ''forms.Media()'')]), [])"
    by (simp add: view_simps run_simps observer_def hook_simps continuation.simps
        filter_chain.simps)
  have j: "continuation ?gs (Suc 0) (message_user_base ?W [PStr ''hi''] []) [PStr ''hi''] [] [] =
      (Inr PNone, [''info: hi''])"
    by (simp add: view_simps run_simps observer_def hook_simps continuation.simps
        message_user_base_def post_def)
  have c: "call (?gs ! 0) [] [] [''info: hi''] = (Inr (PStr ''seen''), [''info: hi'', ''observer''])"
    by (simp add: view_simps run_simps observer_def hook_simps)
  from observer_contract [OF refl l(1) o refl refl, of get_context_base "[]" "[]" "[]"] i b
  have "get_context ?V [] [] [] = (Inl IncorrectPluginArg, [])"
    by (simp add: get_context_def)
  moreover
  from observer_contract [OF refl m(1) p refl refl, of message_user_base "[PStr ''hi'']" "[]" "[]"]
    j c b
  have "filter_hook ''message_user'' message_user_base ?W [PStr ''hi''] [] [] =
      (Inr (PStr ''seen''), [''info: hi'', ''observer''])"
    by simp
  ultimately show ?thesis using l m o p by simp
qed

text \<open>
  C9: a stage in observer mode runs the inner continuation first; an exception of the inner
  chain passes through; the implementation is called only on the result \<^verbatim>\<open>None\<close>, and
  every other result, the falsy \<^verbatim>\<open>False\<close>, \<^verbatim>\<open>0\<close>, \<^verbatim>\<open>''\<close>, \<^verbatim>\<open>{}\<close> among them, gives
  \<^verbatim>\<open>IncorrectPluginArg\<close>. The state with the error is the state the inner chain left:
  the inner chain has run in full and nothing is undone.
\<close>

theorem observer_eager:
  assumes "filters = hook_filters tag (plugins self)"
    and "k < length filters"
    and "observer_mode (filters ! k)"
    and "inner = continuation filters (Suc k) (func self args kwargs) args kwargs"
    and "stage = continuation filters k (func self args kwargs) args kwargs"
  shows "stage s =
      (case inner s of
         (Inl e, s') \<Rightarrow> (Inl e, s')
       | (Inr v, s') \<Rightarrow>
           if v = PNone then call (filters ! k) [] [] s' else (Inl IncorrectPluginArg, s'))
    \<and> (\<forall>v s'. inner s = (Inr v, s') \<and> v \<in> {PBool False, PInt 0, PStr [], PDict []} \<longrightarrow>
          stage s = (Inl IncorrectPluginArg, s'))"
proof -
  have eq: "stage s =
      (case inner s of
         (Inl e, s') \<Rightarrow> (Inl e, s')
       | (Inr v, s') \<Rightarrow>
           if v = PNone then call (filters ! k) [] [] s' else (Inl IncorrectPluginArg, s'))"
    using assms by (simp add: observer_stage is_None_iff split: prod.splits sum.splits)
  moreover have "stage s = (Inl IncorrectPluginArg, s')"
    if "inner s = (Inr v, s') \<and> v \<in> {PBool False, PInt 0, PStr [], PDict []}" for v s'
    using that eq by auto
  ultimately show ?thesis by blast
qed

theorem observer_eager_witness:
  "observer_mode (hook_filters ''probe'' (plugins (view_of [observer ''probe''])) ! 0)
   \<and> filter_hook ''probe'' (returning (PBool False)) (view_of [observer ''probe'']) [] [] [] =
       (Inl IncorrectPluginArg, [''base''])
   \<and> filter_hook ''probe'' (returning (PInt 0)) (view_of [observer ''probe'']) [] [] [] =
       (Inl IncorrectPluginArg, [''base''])
   \<and> filter_hook ''probe'' (returning (PStr [])) (view_of [observer ''probe'']) [] [] [] =
       (Inl IncorrectPluginArg, [''base''])
   \<and> filter_hook ''probe'' (returning (PDict [])) (view_of [observer ''probe'']) [] [] [] =
       (Inl IncorrectPluginArg, [''base''])
   \<and> filter_hook ''probe'' (returning PNone) (view_of [observer ''probe'']) [] [] [] =
       (Inr (PStr ''seen''), [''base'', ''observer''])"
proof -
  let ?V = "view_of [observer ''probe'']"
  let ?fs = "hook_filters ''probe'' (plugins ?V)"
  have l: "0 < length ?fs"
    by (simp add: view_simps run_simps observer_def hook_simps)
  have o: "observer_mode (?fs ! 0)"
    by (simp add: view_simps run_simps observer_def hook_simps observer_mode_def)
  have i: "continuation ?fs (Suc 0) (returning v ?V [] []) [] [] [] = (Inr v, [''base''])" for v
    by (simp add: view_simps run_simps observer_def hook_simps continuation.simps returning_def)
  have c: "call (?fs ! 0) [] [] [''base''] = (Inr (PStr ''seen''), [''base'', ''observer''])"
    by (simp add: view_simps run_simps observer_def hook_simps)
  have h: "filter_hook ''probe'' (returning v) ?V [] [] = continuation ?fs 0 (returning v ?V [] []) [] []" for v
    by (rule filter_hook_continuation) (simp_all add: multiple_values_def)
  have "continuation ?fs 0 (returning v ?V [] []) [] [] [] =
      (if v = PNone then (Inr (PStr ''seen''), [''base'', ''observer''])
       else (Inl IncorrectPluginArg, [''base'']))" for v
    using observer_eager [OF refl l o refl refl, of "returning v" "[]" "[]" "[]"] i [of v] c
    by simp
  with h o show ?thesis by simp
qed

text \<open>
  C4: at a stage whose implementation has two argument names or more, the second name
  selects the convention. When it is \<^verbatim>\<open>__\<close> the implementation is called with the
  continuation itself, not run, as first argument; with any other name the engine runs the
  continuation once and calls the implementation with its result, or passes on its
  exception. In both cases the positional and keyword arguments of the hook call follow
  unchanged.
\<close>

theorem calling_convention:
  assumes "filters = hook_filters tag (plugins self)"
    and "k < length filters"
    and "argspec (filters ! k) = Some names"
    and "2 \<le> length names"
    and "inner = continuation filters (Suc k) (func self args kwargs) args kwargs"
    and "stage = continuation filters k (func self args kwargs) args kwargs"
  shows "(names ! 1 = ''__'' \<longrightarrow> stage = call (filters ! k) (PFunc inner # args) kwargs)
    \<and> (names ! 1 \<noteq> ''__'' \<longrightarrow>
         (\<forall>s. stage s =
            (case inner s of
               (Inl e, s') \<Rightarrow> (Inl e, s')
             | (Inr result, s') \<Rightarrow> call (filters ! k) (result # args) kwargs s')))"
proof -
  from assms(4) obtain a b rest where names: "names = a # b # rest"
    by (cases names; cases "tl names") auto
  show ?thesis
  proof (cases "b = ''__''")
    case True
    with names assms(3) have "continuation_mode (filters ! k)"
      by (simp add: continuation_mode_def)
    with assms True names show ?thesis
      by (simp add: continuation_step inner_method_continuation)
  next
    case False
    with names assms(3) have "result_mode (filters ! k)"
      by (simp add: result_mode_def)
    with assms False names show ?thesis
      by (simp add: result_stage split: prod.splits sum.splits)
  qed
qed

theorem calling_convention_witness:
  "argspec (hook_filters ''message_user''
       (plugins (view_of [recorder ''message_user'' [''self'', ''__'', ''message'', ''level'']])) ! 0)
     = Some [''self'', ''__'', ''message'', ''level'']
   \<and> filter_hook ''message_user'' message_user_base
        (view_of [recorder ''message_user'' [''self'', ''__'', ''message'', ''level'']])
        [PStr ''hi''] [(''level'', PStr ''error'')] [] =
       (Inr (PStr ''recorded''), [''<function>;hi;level=error;''])
   \<and> argspec (hook_filters ''message_user''
       (plugins (view_of [recorder ''message_user'' [''self'', ''result'', ''message'', ''level'']])) ! 0)
     = Some [''self'', ''result'', ''message'', ''level'']
   \<and> filter_hook ''message_user'' message_user_base
        (view_of [recorder ''message_user'' [''self'', ''result'', ''message'', ''level'']])
        [PStr ''hi''] [(''level'', PStr ''error'')] [] =
       (Inr (PStr ''recorded''), [''error: hi'', ''None;hi;level=error;''])"
proof -
  let ?V = "view_of [recorder ''message_user'' [''self'', ''__'', ''message'', ''level'']]"
  let ?W = "view_of [recorder ''message_user'' [''self'', ''result'', ''message'', ''level'']]"
  let ?fs = "hook_filters ''message_user'' (plugins ?V)"
  let ?gs = "hook_filters ''message_user'' (plugins ?W)"
  let ?a = "[PStr ''hi''] :: string list pyargs"
  let ?k = "[(''level'', PStr ''error'')] :: string list pykwargs"
  have l: "0 < length ?fs" and m: "0 < length ?gs"
    by (simp_all add: view_simps run_simps recorder_def hook_simps)
  have o: "argspec (?fs ! 0) = Some [''self'', ''__'', ''message'', ''level'']"
    by (simp add: view_simps run_simps recorder_def hook_simps)
  have p: "argspec (?gs ! 0) = Some [''self'', ''result'', ''message'', ''level'']"
    by (simp add: view_simps run_simps recorder_def hook_simps)
  have n: "2 \<le> length [''self'', ''__'', ''message'', ''level'']"
    and n': "2 \<le> length [''self'', ''result'', ''message'', ''level'']"
    by simp_all
  have hV: "filter_hook ''message_user'' message_user_base ?V ?a ?k =
      continuation ?fs 0 (message_user_base ?V ?a ?k) ?a ?k"
    by (rule filter_hook_continuation) (simp_all add: multiple_values_def)
  have hW: "filter_hook ''message_user'' message_user_base ?W ?a ?k =
      continuation ?gs 0 (message_user_base ?W ?a ?k) ?a ?k"
    by (rule filter_hook_continuation) (simp_all add: multiple_values_def)
  have c: "call (?fs ! 0) (PFunc f # ?a) ?k [] =
      (Inr (PStr ''recorded''), [''<function>;hi;level=error;''])" for f
    by (simp add: view_simps run_simps recorder_def hook_simps)
  have i: "continuation ?gs (Suc 0) (message_user_base ?W ?a ?k) ?a ?k [] =
      (Inr PNone, [''error: hi''])"
    by (simp add: view_simps run_simps recorder_def hook_simps continuation.simps
        message_user_base_def post_def)
  have d: "call (?gs ! 0) (PNone # ?a) ?k [''error: hi''] =
      (Inr (PStr ''recorded''), [''error: hi'', ''None;hi;level=error;''])"
    by (simp add: view_simps run_simps recorder_def hook_simps)
  from calling_convention [OF refl l o n refl refl, of message_user_base ?a ?k] c hV
  have "filter_hook ''message_user'' message_user_base ?V ?a ?k [] =
      (Inr (PStr ''recorded''), [''<function>;hi;level=error;''])"
    by simp
  moreover
  from calling_convention [OF refl m p n' refl refl, of message_user_base ?a ?k] i d hW
  have "filter_hook ''message_user'' message_user_base ?W ?a ?k [] =
      (Inr (PStr ''recorded''), [''error: hi'', ''None;hi;level=error;''])"
    by simp
  ultimately show ?thesis using o p by simp
qed

text \<open>
  C6: the list of implementations that the chain is built from is sorted by priority, is
  a rearrangement of the matched implementations, and for every priority value the
  implementations of that value come in the order of the list of active plugins: the sort
  is stable. The list is a function of the plugins and the hook's name, so every call
  of the hook builds the same one.
\<close>

theorem stable_ties:
  "sorted (map getattr_priority (hook_filters tag ps))
   \<and> mset (hook_filters tag ps) = mset (map snd (hook_pairs tag ps))
   \<and> filter (\<lambda>fm. getattr_priority fm = n) (hook_filters tag ps) =
       filter (\<lambda>fm. getattr_priority fm = n) (map snd (hook_pairs tag ps))"
  by (simp add: hook_filters_sorted hook_filters_stable) (simp add: hook_filters_def)

theorem stable_ties_witness:
  "map getattr_priority (map snd (hook_pairs ''get_context'' (plugins (view_of
       [tracer ''a'' None, tracer ''b'' (Some 5), tracer ''c'' (Some 10), tracer ''d'' (Some 5)]))))
     = [10, 5, 10, 5]
   \<and> filter (\<lambda>fm. getattr_priority fm = 5) (hook_filters ''get_context'' (plugins (view_of
       [tracer ''a'' None, tracer ''b'' (Some 5), tracer ''c'' (Some 10), tracer ''d'' (Some 5)])))
     = [\<lparr>priority = Some 5, argspec = Some [''self'', ''__''], call = call_through ''b''\<rparr>,
        \<lparr>priority = Some 5, argspec = Some [''self'', ''__''], call = call_through ''d''\<rparr>]
   \<and> get_context (view_of
       [tracer ''a'' None, tracer ''b'' (Some 5), tracer ''c'' (Some 10), tracer ''d'' (Some 5)])
       [] [] [] =
     (Inr (PDict [(''admin_view'', PObj ''V''), (''media'', PObj ''forms.Media()'')]),
      [''b enter'', ''d enter'', ''a enter'', ''c enter'',
       ''c exit'', ''a exit'', ''d exit'', ''b exit''])"
proof -
  let ?V = "view_of
       [tracer ''a'' None, tracer ''b'' (Some 5), tracer ''c'' (Some 10), tracer ''d'' (Some 5)]"
  let ?ms = "map snd (hook_pairs ''get_context'' (plugins ?V))"
  have ms: "?ms =
      [\<lparr>priority = None, argspec = Some [''self'', ''__''], call = call_through ''a''\<rparr>,
       \<lparr>priority = Some 5, argspec = Some [''self'', ''__''], call = call_through ''b''\<rparr>,
       \<lparr>priority = Some 10, argspec = Some [''self'', ''__''], call = call_through ''c''\<rparr>,
       \<lparr>priority = Some 5, argspec = Some [''self'', ''__''], call = call_through ''d''\<rparr>]"
    by (simp add: view_simps run_simps tracer_def getattr_def)
  have five: "filter (\<lambda>fm. getattr_priority fm = 5) (hook_filters ''get_context'' (plugins ?V)) =
      [\<lparr>priority = Some 5, argspec = Some [''self'', ''__''], call = call_through ''b''\<rparr>,
       \<lparr>priority = Some 5, argspec = Some [''self'', ''__''], call = call_through ''d''\<rparr>]"
    using stable_ties [of "''get_context''" "plugins ?V" 5]
    by (simp add: ms getattr_priority_def)
  have p: "map getattr_priority ?ms = [10, 5, 10, 5]"
    by (simp add: ms getattr_priority_def)
  have "get_context ?V [] [] [] =
     (Inr (PDict [(''admin_view'', PObj ''V''), (''media'', PObj ''forms.Media()'')]),
      [''b enter'', ''d enter'', ''a enter'', ''c enter'',
       ''c exit'', ''a exit'', ''d exit'', ''b exit''])"
    by (simp add: view_simps run_simps tracer_def hook_simps filter_chain.simps)
  with p five show ?thesis by simp
qed

text \<open>
  C7: an implementation is in the chain of a hook exactly when some active plugin has it as
  a callable attribute of the hook's name; the plugins without such an attribute are left
  out, and the chain is the same as if they were not attached; the priority paired with an
  implementation is its attribute \<^verbatim>\<open>priority\<close>, and 10 when it has none, and these are
  the priorities the chain is sorted by.
\<close>

theorem hook_discovery:
  "(fm \<in> set (hook_filters tag ps) \<longleftrightarrow> (\<exists>p \<in> set ps. getattr p tag = Some (Callable fm)))
   \<and> length (hook_filters tag ps) = length (filter (\<lambda>p. callable (getattr p tag)) ps)
   \<and> hook_filters tag ps = hook_filters tag (filter (\<lambda>p. callable (getattr p tag)) ps)
   \<and> (\<forall>x \<in> set (hook_pairs tag ps).
         fst x = (case priority (snd x) of None \<Rightarrow> 10 | Some n \<Rightarrow> n))
   \<and> map getattr_priority (hook_filters tag ps) = sort (map fst (hook_pairs tag ps))"
proof -
  have "set (hook_filters tag ps) = snd ` set (hook_pairs tag ps)"
    by (simp add: hook_filters_def)
  then have "fm \<in> set (hook_filters tag ps) \<longleftrightarrow>
      (\<exists>p \<in> set ps. getattr p tag = Some (Callable fm))"
    by (simp add: hook_pairs_snd)
  moreover have "length (hook_filters tag ps) = length (filter (\<lambda>p. callable (getattr p tag)) ps)"
    by (simp add: hook_filters_def hook_pairs_length)
  moreover have "hook_filters tag ps = hook_filters tag (filter (\<lambda>p. callable (getattr p tag)) ps)"
    by (simp add: hook_filters_def hook_pairs_filter)
  moreover have "\<forall>x \<in> set (hook_pairs tag ps).
      fst x = (case priority (snd x) of None \<Rightarrow> 10 | Some n \<Rightarrow> n)"
    using hook_pairs_fst [of _ tag ps] by (simp add: getattr_priority_def)
  moreover have "map getattr_priority (hook_filters tag ps) = sort (map fst (hook_pairs tag ps))"
    unfolding hook_filters_priorities
    by (rule properties_for_sort [symmetric]) simp_all
  ultimately show ?thesis by blast
qed

theorem hook_discovery_witness:
  "map (\<lambda>p. callable (getattr p ''get_context''))
      (plugins (view_of [tracer ''a'' None, tracer ''b'' (Some 3),
         with_attribute ''get_context'' (PInt 1), recorder ''message_user'' [''self'', ''__'']])) =
     [True, True, False, False]
   \<and> map fst (hook_pairs ''get_context''
      (plugins (view_of [tracer ''a'' None, tracer ''b'' (Some 3),
         with_attribute ''get_context'' (PInt 1), recorder ''message_user'' [''self'', ''__'']]))) = [10, 3]
   \<and> map getattr_priority (hook_filters ''get_context''
      (plugins (view_of [tracer ''a'' None, tracer ''b'' (Some 3),
         with_attribute ''get_context'' (PInt 1), recorder ''message_user'' [''self'', ''__'']]))) = [3, 10]
   \<and> get_context (view_of [tracer ''a'' None, tracer ''b'' (Some 3),
         with_attribute ''get_context'' (PInt 1), recorder ''message_user'' [''self'', ''__'']]) [] [] [] =
     (Inr (PDict [(''admin_view'', PObj ''V''), (''media'', PObj ''forms.Media()'')]),
      [''b enter'', ''a enter'', ''a exit'', ''b exit''])"
proof -
  let ?V = "view_of [tracer ''a'' None, tracer ''b'' (Some 3),
         with_attribute ''get_context'' (PInt 1), recorder ''message_user'' [''self'', ''__'']]"
  have c: "map (\<lambda>p. callable (getattr p ''get_context'')) (plugins ?V) =
     [True, True, False, False]"
    by (simp add: view_simps run_simps tracer_def recorder_def with_attribute_def getattr_def)
  have f: "map fst (hook_pairs ''get_context'' (plugins ?V)) = [10, 3]"
    by (simp add: view_simps run_simps tracer_def recorder_def with_attribute_def getattr_def
        getattr_priority_def)
  from hook_discovery [of _ "''get_context''" "plugins ?V"]
  have "map getattr_priority (hook_filters ''get_context'' (plugins ?V)) =
      sort (map fst (hook_pairs ''get_context'' (plugins ?V)))"
    by blast
  with f have s: "map getattr_priority (hook_filters ''get_context'' (plugins ?V)) = [3, 10]"
    by simp
  have g: "get_context ?V [] [] [] =
     (Inr (PDict [(''admin_view'', PObj ''V''), (''media'', PObj ''forms.Media()'')]),
      [''b enter'', ''a enter'', ''a exit'', ''b exit''])"
    by (simp add: view_simps run_simps tracer_def recorder_def with_attribute_def hook_simps
        filter_chain.simps)
  from c f s g show ?thesis by blast
qed

text \<open>
  C8 (scenario B): a view with the plugins \<^verbatim>\<open>P1\<close> (priority 5, takes the continuation,
  sets \<^verbatim>\<open>'x'\<close> to 1 after calling it) and \<^verbatim>\<open>P2\<close> (priority 20, takes the result and sets
  \<^verbatim>\<open>'y'\<close> to 2), configured in either order. \<^verbatim>\<open>get_context\<close> returns the base dict with
  \<^verbatim>\<open>'y': 2\<close> and \<^verbatim>\<open>'x': 1\<close> added, and the log shows \<^verbatim>\<open>P1\<close> entered before \<^verbatim>\<open>P2\<close>.
\<close>

theorem scenario_B:
  "py_bind (BaseAdminView_init (new_view ''V'' (Some [P1, P2])) a_request [] [])
     (\<lambda>V. get_context V [] []) [] =
   (Inr (PDict [(''admin_view'', PObj ''V''), (''media'', PObj ''forms.Media()''),
                (''y'', PInt 2), (''x'', PInt 1)]), [''P1'', ''P2''])
   \<and> py_bind (BaseAdminView_init (new_view ''V'' (Some [P2, P1])) a_request [] [])
     (\<lambda>V. get_context V [] []) [] =
   (Inr (PDict [(''admin_view'', PObj ''V''), (''media'', PObj ''forms.Media()''),
                (''y'', PInt 2), (''x'', PInt 1)]), [''P1'', ''P2''])"
  by (simp add: view_simps run_simps P1_def P2_def hook_simps filter_chain.simps)

text \<open>
  C5: when \<^verbatim>\<open>init_plugin\<close> returns, the opt-in checks have given one result for each
  configured plugin, and the list of active plugins is the list of the plugins at the
  positions whose result is not the boolean \<^verbatim>\<open>False\<close>: every other result, \<^verbatim>\<open>None\<close>
  included, keeps the plugin. Every implementation that a hook of the view uses is a
  callable attribute of a plugin at such a position, so a plugin that answered \<^verbatim>\<open>False\<close>
  is called by no hook.
\<close>

theorem opt_in:
  assumes "init_plugin self args kwargs s = (Inr V, s')"
  shows "\<exists>rs. init_results self args kwargs (base_plugins self) s = (Inr rs, s')
    \<and> length rs = length (base_plugins self)
    \<and> base_plugins V = map (set_request_attrs self) (base_plugins self)
    \<and> plugins V = nths (base_plugins V) {i. i < length rs \<and> rs ! i \<noteq> PBool False}
    \<and> (\<forall>tag. \<forall>fm \<in> set (hook_filters tag (plugins V)).
          \<exists>i < length rs. rs ! i \<noteq> PBool False
            \<and> getattr (base_plugins V ! i) tag = Some (Callable fm))"
proof -
  from assms obtain rs where rs: "init_results self args kwargs (base_plugins self) s = (Inr rs, s')"
    and V: "V = self\<lparr>base_plugins := map (set_request_attrs self) (base_plugins self),
                     plugins := selected (map (set_request_attrs self) (base_plugins self)) rs\<rparr>"
    by (auto simp: init_plugin_def init_plugin_loop_results py_bind_apply py_return_def
        split: prod.splits sum.splits)
  from rs have len: "length rs = length (base_plugins self)"
    by (rule init_results_length)
  from V have bp: "base_plugins V = map (set_request_attrs self) (base_plugins self)"
    by simp
  from V len bp have pl: "plugins V = nths (base_plugins V) {i. i < length rs \<and> rs ! i \<noteq> PBool False}"
    by (simp add: selected_nths is_False_iff)
  have "\<exists>i < length rs. rs ! i \<noteq> PBool False \<and> getattr (base_plugins V ! i) tag = Some (Callable fm)"
    if "fm \<in> set (hook_filters tag (plugins V))" for tag fm
  proof -
    from that have "fm \<in> snd ` set (hook_pairs tag (plugins V))"
      by (simp add: hook_filters_def)
    then obtain p where p: "p \<in> set (plugins V)" "getattr p tag = Some (Callable fm)"
      by (auto simp: hook_pairs_snd)
    from p(1) pl obtain i where "i < length (base_plugins V)" "i < length rs"
      "rs ! i \<noteq> PBool False" "p = base_plugins V ! i"
      by (auto simp: set_nths)
    with p(2) show ?thesis by auto
  qed
  with rs len bp pl show ?thesis by blast
qed

theorem opt_in_witness:
  "init_plugin (prepared_view some_plugins) [] [] [] =
     (Inr (view_of some_plugins), [''a init'', ''b init'', ''c init'', ''d init''])
   \<and> init_results (prepared_view some_plugins) [] [] (base_plugins (prepared_view some_plugins)) [] =
     (Inr [PNone, PBool False, PInt 0, PBool False, PBool True],
      [''a init'', ''b init'', ''c init'', ''d init''])
   \<and> plugins (view_of some_plugins) = nths (base_plugins (view_of some_plugins)) {0, 2, 4}
   \<and> snd (get_context (view_of some_plugins) [] [] []) =
       [''a enter'', ''c enter'', ''d enter'', ''d exit'', ''c exit'', ''a exit'']"
proof -
  let ?rs = "[PNone, PBool False, PInt 0, PBool False, PBool True] :: string list pyval list"
  have h: "init_plugin (prepared_view some_plugins) [] [] [] =
     (Inr (view_of some_plugins), [''a init'', ''b init'', ''c init'', ''d init''])"
    by (simp add: init_simps view_simps run_simps)
  have r: "init_results (prepared_view some_plugins) [] []
        (base_plugins (prepared_view some_plugins)) [] =
     (Inr ?rs, [''a init'', ''b init'', ''c init'', ''d init''])"
    by (simp add: init_simps view_simps run_simps)
  have mem: "i < length ?rs \<and> ?rs ! i \<noteq> PBool False \<longleftrightarrow> i \<in> {0, 2, 4}" for i
  proof -
    have "i < length ?rs \<longleftrightarrow> i \<in> {0, 1, 2, 3, 4}" by auto
    then show ?thesis by auto
  qed
  have idx: "{i. i < length ?rs \<and> ?rs ! i \<noteq> PBool False} = {0, 2, 4}"
  proof (rule set_eqI)
    fix i
    show "i \<in> {i. i < length ?rs \<and> ?rs ! i \<noteq> PBool False} \<longleftrightarrow> i \<in> {0, 2, 4}"
      unfolding mem_Collect_eq by (rule mem)
  qed
  from opt_in [OF h] obtain rs where
    "init_results (prepared_view some_plugins) [] []
        (base_plugins (prepared_view some_plugins)) [] =
       (Inr rs, [''a init'', ''b init'', ''c init'', ''d init''])"
    and "plugins (view_of some_plugins) =
       nths (base_plugins (view_of some_plugins)) {i. i < length rs \<and> rs ! i \<noteq> PBool False}"
    by blast
  with r idx have n: "plugins (view_of some_plugins) =
      nths (base_plugins (view_of some_plugins)) {0, 2, 4}"
    by simp
  have g: "snd (get_context (view_of some_plugins) [] [] []) =
       [''a enter'', ''c enter'', ''d enter'', ''d exit'', ''c exit'', ''a exit'']"
    by (simp add: init_simps view_simps run_simps hook_simps filter_chain.simps)
  from h r n g show ?thesis by blast
qed

text \<open>
  C10: \<^verbatim>\<open>__init__\<close> makes one plugin instance of every configured class, in order, and
  runs \<^verbatim>\<open>init_plugin\<close> on them. \<^verbatim>\<open>init_plugin\<close> sets \<^verbatim>\<open>request\<close>, \<^verbatim>\<open>user\<close>, \<^verbatim>\<open>args\<close> and
  \<^verbatim>\<open>kwargs\<close> of every instance to those of the view and calls \<^verbatim>\<open>init_request\<close> on the
  instance so changed, for every instance in order, whether it is kept or not: the effects
  and the exception of the pass are those of the calls one after the other, and there is
  one answer for each instance. The active list is the instances whose answer is not the
  boolean \<^verbatim>\<open>False\<close>, in the order of the configuration.
\<close>

theorem init_plugin_pass:
  "init_plugin self args kwargs s =
     (let bound =
        map (\<lambda>p. p\<lparr>p_fields := (p_fields p)
                     \<lparr>p_request := Some (request self), p_user := Some (user self),
                      p_args := Some (self_args self), p_kwargs := Some (self_kwargs self)\<rparr>\<rparr>)
          (base_plugins self)
      in case opt_in_answers args kwargs bound s of
           (Inl e, s') \<Rightarrow> (Inl e, s')
         | (Inr rs, s') \<Rightarrow>
             (Inr (self\<lparr>base_plugins := bound,
                        plugins := map fst (filter (\<lambda>x. snd x \<noteq> PBool False) (zip bound rs))\<rparr>),
              s'))
   \<and> (\<forall>ps rs s'. opt_in_answers args kwargs ps s = (Inr rs, s') \<longrightarrow> length rs = length ps)
   \<and> BaseAdminView_init self req args kwargs s =
       init_plugin
         (self\<lparr>request := req, request_method := lower (req_method req), user := req_user req,
               base_plugins :=
                 map (\<lambda>c. \<lparr>cls = c,
                           p_fields = \<lparr>admin_view = ident self, p_admin_site = admin_site self,
                             p_model = model self,
                             p_opts = (case model self of None \<Rightarrow> None
                                       | Some m \<Rightarrow> Some (m @ ''._meta'')),
                             p_request = None, p_user = None, p_args = None,
                             p_kwargs = None\<rparr>\<rparr>)
                   (case plugin_classes self of None \<Rightarrow> [] | Some cs \<Rightarrow> cs),
               self_args := args, self_kwargs := kwargs\<rparr>)
         args kwargs s"
proof -
  let ?bound = "map (\<lambda>p. p\<lparr>p_fields := (p_fields p)
                     \<lparr>p_request := Some (request self), p_user := Some (user self),
                      p_args := Some (self_args self), p_kwargs := Some (self_kwargs self)\<rparr>\<rparr>)
          (base_plugins self)"
  have bound: "map (set_request_attrs self) (base_plugins self) = ?bound"
    by (simp add: set_request_attrs_def)
  have sel: "selected ps rs = map fst (filter (\<lambda>x. snd x \<noteq> PBool False) (zip ps rs))"
    for ps :: "'a plugin list" and rs
    by (simp add: selected_def is_False_iff)
  have "init_plugin self args kwargs s =
     (case opt_in_answers args kwargs ?bound s of
           (Inl e, s') \<Rightarrow> (Inl e, s')
         | (Inr rs, s') \<Rightarrow>
             (Inr (self\<lparr>base_plugins := ?bound,
                        plugins := map fst (filter (\<lambda>x. snd x \<noteq> PBool False) (zip ?bound rs))\<rparr>),
              s'))"
    unfolding bound [symmetric] sel [symmetric] init_results_answers [symmetric]
    by (simp add: init_plugin_def init_plugin_loop_results py_bind_apply py_return_def
        split: prod.splits sum.splits)
  moreover have "length rs = length ps"
    if "opt_in_answers args kwargs ps s = (Inr rs, s')" for ps rs s'
    using that by (rule opt_in_answers_length)
  moreover have "BaseAdminView_init self req args kwargs s =
       init_plugin
         (self\<lparr>request := req, request_method := lower (req_method req), user := req_user req,
               base_plugins :=
                 map (\<lambda>c. \<lparr>cls = c,
                           p_fields = \<lparr>admin_view = ident self, p_admin_site = admin_site self,
                             p_model = model self,
                             p_opts = (case model self of None \<Rightarrow> None
                                       | Some m \<Rightarrow> Some (m @ ''._meta'')),
                             p_request = None, p_user = None, p_args = None,
                             p_kwargs = None\<rparr>\<rparr>)
                   (case plugin_classes self of None \<Rightarrow> [] | Some cs \<Rightarrow> cs),
               self_args := args, self_kwargs := kwargs\<rparr>)
         args kwargs s"
    by (simp add: BaseAdminView_init_def BaseAdminPlugin_init_def Let_def view_init_request_def
        py_bind_apply py_return_def split: prod.splits sum.splits)
  ultimately show ?thesis by (simp add: Let_def)
qed

theorem init_plugin_pass_witness:
  "snd (BaseAdminView_init
          (new_view ''V'' (Some [answering ''a'' PNone, reads_attrs,
             answering ''b'' (PBool False), answering ''c'' (PInt 0),
             answering ''d'' (PStr [])]))
          a_request [PStr ''7''] [(''pk'', PStr ''9'')] []) =
     [''a init'', ''GET;admin;7;pk;7;pk;'', ''b init'', ''c init'', ''d init'']
   \<and> py_bind (BaseAdminView_init
          (new_view ''V'' (Some [answering ''a'' PNone, reads_attrs,
             answering ''b'' (PBool False), answering ''c'' (PInt 0),
             answering ''d'' (PStr [])]))
          a_request [PStr ''7''] [(''pk'', PStr ''9'')])
        (\<lambda>V. py_return
           (map (\<lambda>p. (p_user (p_fields p), p_args (p_fields p), p_kwargs (p_fields p)))
              (base_plugins V), length (plugins V))) [] =
     (Inr (replicate 5 (Some (PObj ''admin''), Some [PStr ''7''], Some [(''pk'', PStr ''9'')]), 3),
      [''a init'', ''GET;admin;7;pk;7;pk;'', ''b init'', ''c init'', ''d init''])
   \<and> py_bind (BaseAdminView_init
          (new_view ''V'' (Some [answering ''a'' PNone, reads_attrs,
             answering ''b'' (PBool False), answering ''c'' (PInt 0),
             answering ''d'' (PStr [])]))
          a_request [PStr ''7''] [(''pk'', PStr ''9'')])
        (\<lambda>V. get_context V [] []) [] =
     (Inr (PDict [(''admin_view'', PObj ''V''), (''media'', PObj ''forms.Media()'')]),
      [''a init'', ''GET;admin;7;pk;7;pk;'', ''b init'', ''c init'', ''d init'',
       ''a enter'', ''c enter'', ''d enter'', ''d exit'', ''c exit'', ''a exit''])"
proof -
  let ?cs = "[answering ''a'' PNone, reads_attrs,
             answering ''b'' (PBool False), answering ''c'' (PInt 0),
             answering ''d'' (PStr [])]"
  let ?A = "[PStr ''7''] :: string list pyargs"
  let ?K = "[(''pk'', PStr ''9'')] :: string list pykwargs"
  let ?W = "(new_view ''V'' (Some ?cs))
       \<lparr>request := a_request,
         request_method := lower (req_method (a_request :: string list http_request)),
         user := req_user a_request,
         base_plugins :=
           map (\<lambda>c. \<lparr>cls = c,
                     p_fields = \<lparr>admin_view = ident (new_view ''V'' (Some ?cs)),
                       p_admin_site = admin_site (new_view ''V'' (Some ?cs)),
                       p_model = model (new_view ''V'' (Some ?cs)),
                       p_opts = (case model (new_view ''V'' (Some ?cs)) of None \<Rightarrow> None
                                 | Some m \<Rightarrow> Some (m @ ''._meta'')),
                       p_request = None, p_user = None, p_args = None, p_kwargs = None\<rparr>\<rparr>)
             (case plugin_classes (new_view ''V'' (Some ?cs)) of None \<Rightarrow> [] | Some cs \<Rightarrow> cs),
         self_args := ?A, self_kwargs := ?K\<rparr>"
  from init_plugin_pass [where self = "new_view ''V'' (Some ?cs)" and req = a_request
      and args = ?A and kwargs = ?K and s = "[]"]
  have i: "BaseAdminView_init (new_view ''V'' (Some ?cs)) a_request ?A ?K [] =
      init_plugin ?W ?A ?K []"
    by blast
  from init_plugin_pass [where self = ?W and args = ?A and kwargs = ?K and s = "[]"]
  have p: "init_plugin ?W ?A ?K [] =
     (let bound =
        map (\<lambda>p. p\<lparr>p_fields := (p_fields p)
                     \<lparr>p_request := Some (request ?W), p_user := Some (user ?W),
                      p_args := Some (self_args ?W), p_kwargs := Some (self_kwargs ?W)\<rparr>\<rparr>)
          (base_plugins ?W)
      in case opt_in_answers ?A ?K bound [] of
           (Inl e, s') \<Rightarrow> (Inl e, s')
         | (Inr rs, s') \<Rightarrow>
             (Inr (?W\<lparr>base_plugins := bound,
                        plugins := map fst (filter (\<lambda>x. snd x \<noteq> PBool False) (zip bound rs))\<rparr>),
              s'))"
    by blast
  show ?thesis
    unfolding py_bind_apply i p
    by (simp add: Let_def new_view_def a_request_def answering_def reads_attrs_def
        run_simps hook_simps filter_chain.simps lower_def char_lower_def numeral_eq_Suc)
qed

end
